theory Spec2Isabelle
  imports Main "HOL-Library.Word" "HOL-Library.List_Lexorder" "HOL-Library.Char_ord"
begin

unbundle bit_operations_syntax

section \<open>Bytes, little-endian integers, CRC-32\<close>

text \<open>
  Go's \<^verbatim>\<open>[]byte\<close> is a list of 8-bit words. With the lexicographic order of \<^verbatim>\<open>HOL-Library.List_Lexorder\<close>
  the order on byte lists is the bytewise lexicographic one, which is what Go's
  \<^verbatim>\<open>string(a) < string(b)\<close> computes. \<open>bytes_of\<close> only spells byte strings readably.
\<close>

type_synonym byte = "8 word"
type_synonym bytes = "byte list"

definition bytes_of :: "string \<Rightarrow> bytes" where
  "bytes_of s = map of_char s"

text \<open>\<^verbatim>\<open>binary.Write(w, binary.LittleEndian, x)\<close> for a uint16 and a uint32.\<close>

definition le16 :: "16 word \<Rightarrow> bytes" where
  "le16 w = [ucast w, ucast (drop_bit 8 w)]"

definition le32 :: "32 word \<Rightarrow> bytes" where
  "le32 w = [ucast w, ucast (drop_bit 8 w), ucast (drop_bit 16 w), ucast (drop_bit 24 w)]"

text \<open>\<^verbatim>\<open>binary.LittleEndian.Uint32(b)\<close>, always called on a slice of four bytes.\<close>

definition Uint32 :: "bytes \<Rightarrow> 32 word" where
  "Uint32 b = ucast (b ! 0) OR push_bit 8 (ucast (b ! 1)) OR push_bit 16 (ucast (b ! 2))
                OR push_bit 24 (ucast (b ! 3))"

text \<open>
  \<^verbatim>\<open>hash/crc32\<close> with the IEEE polynomial, bit by bit (reflected form, polynomial
  \<open>0xEDB88320\<close>, initial value and final complement \<open>0xFFFFFFFF\<close>).
\<close>

definition crc32_bit :: "32 word \<Rightarrow> 32 word" where
  "crc32_bit c = (if c AND 1 = 1 then drop_bit 1 c XOR 0xEDB88320 else drop_bit 1 c)"

definition crc32_byte :: "32 word \<Rightarrow> byte \<Rightarrow> 32 word" where
  "crc32_byte c b =
     crc32_bit (crc32_bit (crc32_bit (crc32_bit (crc32_bit (crc32_bit (crc32_bit (crc32_bit
       (c XOR ucast b))))))))"

definition crc32_IEEE :: "bytes \<Rightarrow> 32 word" where
  "crc32_IEEE bs = foldl crc32_byte 0xFFFFFFFF bs XOR 0xFFFFFFFF"

section \<open>Errors\<close>

text \<open>
  The source's errors are values of Go's \<^verbatim>\<open>error\<close>; one constructor per place that makes one:
  \<^item> \<open>WriteError\<close>: a failed write on the log file (closed handle, device full);
  \<^item> \<open>KeyDoesNotExist\<close>: \<^verbatim>\<open>errors.New("key doesn't exist")\<close> of \<^verbatim>\<open>Del\<close>;
  \<^item> \<open>KeyNotFound\<close>: \<^verbatim>\<open>errors.New("key not found")\<close> of \<^verbatim>\<open>Get\<close>;
  \<^item> \<open>OpenError\<close>: \<^verbatim>\<open>os.Open\<close> on a name that does not exist;
  \<^item> \<open>SeekChecksumError\<close>: "error seeking checksum in SST file";
  \<^item> \<open>IntegrityError\<close>: "SST file integrity check failed: checksums do not match";
  \<^item> \<open>UnmarshalError\<close>: \<^verbatim>\<open>json.Unmarshal\<close> rejected a line;
  \<^item> \<open>ScannerError\<close>: \<^verbatim>\<open>scanner.Err()\<close> (a line too long for the scanner's buffer);
  \<^item> \<open>RemoveError\<close>: \<^verbatim>\<open>os.Remove\<close> on a name that does not exist;
  \<^item> \<open>ListingError\<close>: \<^verbatim>\<open>getSSTFileNames\<close> could not read the directory;
  \<^item> \<open>InvalidOperation\<close>: \<^verbatim>\<open>errors.New("invalid operation")\<close> of \<^verbatim>\<open>flushToSST\<close>;
  \<^item> \<open>IndexOutOfRange\<close>: the run-time panic of \<^verbatim>\<open>mem.data[0]\<close> on an empty \<^verbatim>\<open>mem.data\<close>;
  \<^item> \<open>SeekError\<close>: \<^verbatim>\<open>Seek\<close> on the log's closed file handle.
\<close>

datatype error =
    WriteError
  | KeyDoesNotExist
  | KeyNotFound
  | OpenError
  | SeekChecksumError
  | IntegrityError
  | UnmarshalError
  | ScannerError
  | RemoveError
  | ListingError
  | InvalidOperation
  | IndexOutOfRange
  | SeekError

section \<open>The write-ahead log\<close>

text \<open>
  \<^verbatim>\<open>type Operation uint8\<close> with \<^verbatim>\<open>Set = 0\<close> and \<^verbatim>\<open>Delete = 1\<close>; \<^verbatim>\<open>KeyValue\<close> as declared.
\<close>

type_synonym Operation = "8 word"

definition Set_op :: Operation where
  "Set_op = 0"

definition Delete_op :: Operation where
  "Delete_op = 1"

record KeyValue =
  Key :: bytes
  Value :: bytes
  Operation :: Operation

text \<open>
  The log's \<^verbatim>\<open>*os.File\<close>, opened with \<^verbatim>\<open>O_APPEND\<close>: the bytes written so far, whether the
  handle has been closed, and the room left on the device. A write on a closed handle
  fails and writes nothing; a write that does not fit writes what fits and fails.
\<close>

record osfile =
  f_contents :: bytes
  f_closed :: bool
  f_space :: nat

definition file_Write :: "bytes \<Rightarrow> osfile \<Rightarrow> bool \<times> osfile" where
  "file_Write b f =
     (if f_closed f then (False, f)
      else if length b \<le> f_space f
        then (True, f\<lparr>f_contents := f_contents f @ b, f_space := f_space f - length b\<rparr>)
        else (False, f\<lparr>f_contents := f_contents f @ take (f_space f) b, f_space := 0\<rparr>))"

record WriteAheadLog =
  wal_file :: osfile
  watermark :: int

definition wal_Write :: "bytes \<Rightarrow> WriteAheadLog \<Rightarrow> bool \<times> WriteAheadLog" where
  "wal_Write b w = (case file_Write b (wal_file w) of (ok, f) \<Rightarrow> (ok, w\<lparr>wal_file := f\<rparr>))"

text \<open>
  \<^verbatim>\<open>AppendEntry\<close>: five writes, each returning its error at once. The lengths are
  \<^verbatim>\<open>uint16(len(...))\<close>, so they wrap at \<open>2^16\<close>.
\<close>

definition AppendEntry :: "Operation \<Rightarrow> KeyValue \<Rightarrow> WriteAheadLog \<Rightarrow> error option \<times> WriteAheadLog" where
  "AppendEntry operation entry w0 =
     (case wal_Write [operation] w0 of
        (False, w1) \<Rightarrow> (Some WriteError, w1)
      | (True, w1) \<Rightarrow>
     (case wal_Write (le16 (of_nat (length (Key entry)))) w1 of
        (False, w2) \<Rightarrow> (Some WriteError, w2)
      | (True, w2) \<Rightarrow>
     (case wal_Write (Key entry) w2 of
        (False, w3) \<Rightarrow> (Some WriteError, w3)
      | (True, w3) \<Rightarrow>
     (case wal_Write (le16 (of_nat (length (Value entry)))) w3 of
        (False, w4) \<Rightarrow> (Some WriteError, w4)
      | (True, w4) \<Rightarrow>
     (case wal_Write (Value entry) w4 of
        (False, w5) \<Rightarrow> (Some WriteError, w5)
      | (True, w5) \<Rightarrow> (None, w5))))))"

section \<open>Segment files and the buffered reader\<close>

text \<open>
  The working directory: file names to contents. \<^verbatim>\<open>os.Create\<close> makes or truncates a file,
  \<^verbatim>\<open>os.Open\<close> and \<^verbatim>\<open>os.Remove\<close> fail on a name that is not there. Writes to segment files
  are taken to succeed (the functions below are the runs of the source in which they do).
\<close>

type_synonym filesystem = "string \<rightharpoonup> bytes"

text \<open>
  \<^verbatim>\<open>bufio.NewReader(file)\<close> over a regular file: the bytes buffered and not yet handed out,
  and the bytes of the file not yet read. \<^verbatim>\<open>Read(p)\<close> with \<open>n = len(p)\<close>:
  \<^item> \<open>n = 0\<close> returns 0 and no error;
  \<^item> with an empty buffer and \<open>n\<close> at least the buffer size (4096), one read of the file
    straight into \<open>p\<close>;
  \<^item> with an empty buffer otherwise, one read of the file into the buffer, then a copy;
  \<^item> with a non-empty buffer, a copy of what is buffered, at most \<open>n\<close> bytes.
  A read of the file at its end is \<^verbatim>\<open>io.EOF\<close>: \<open>None\<close>. The result holds the bytes
  copied, possibly fewer than \<open>n\<close>.
\<close>

type_synonym reader = "bytes \<times> bytes"

definition bufSize :: nat where
  "bufSize = 4096"

definition reader_Read :: "nat \<Rightarrow> reader \<Rightarrow> (bytes \<times> reader) option" where
  "reader_Read n r =
     (case r of (buf, rest) \<Rightarrow>
        if n = 0 then Some ([], r)
        else if buf = [] then
          (if rest = [] then None
           else if bufSize \<le> n then Some (take n rest, ([], drop n rest))
           else Some (take n (take bufSize rest), (drop n (take bufSize rest), drop bufSize rest)))
        else Some (take n buf, (drop n buf, rest)))"

text \<open>
  \<^verbatim>\<open>make([]byte, n)\<close> followed by a read of \<open>got\<close> into it: the bytes read, then zeros.
\<close>

definition filled :: "nat \<Rightarrow> bytes \<Rightarrow> bytes" where
  "filled n got = got @ replicate (n - length got) 0"

definition remaining :: "reader \<Rightarrow> nat" where
  "remaining r = length (fst r) + length (snd r)"

lemma reader_Read_le:
  "reader_Read n r = Some (got, r') \<Longrightarrow> remaining r' \<le> remaining r"
  by (auto simp: reader_Read_def remaining_def bufSize_def split: prod.splits if_splits)

lemma reader_Read_less:
  "reader_Read n r = Some (got, r') \<Longrightarrow> 0 < n \<Longrightarrow> remaining r' < remaining r"
proof (cases r)
  case (Pair buf rest)
  assume rd: "reader_Read n r = Some (got, r')" and n: "0 < n"
  show ?thesis
  proof (cases "buf = []")
    case True
    with rd n Pair have "rest \<noteq> []"
      by (auto simp: reader_Read_def split: if_splits)
    then have "0 < length rest" by simp
    with rd n Pair True show ?thesis
      by (auto simp: reader_Read_def remaining_def bufSize_def min_def split: if_splits)
  next
    case False
    then have "0 < length buf" by simp
    with rd n Pair False show ?thesis
      by (auto simp: reader_Read_def remaining_def split: if_splits)
  qed
qed

text \<open>
  The loop of \<^verbatim>\<open>loadSSTFile\<close>: key length, key, value length, value, until a read fails;
  the result is the list of entries the loop appends to \<^verbatim>\<open>mem.data\<close>.
\<close>

function readEntries :: "reader \<Rightarrow> KeyValue list" where
  "readEntries r =
     (case reader_Read 4 r of
        None \<Rightarrow> []
      | Some (keyLenBytes, r1) \<Rightarrow>
     (case reader_Read (unat (Uint32 (filled 4 keyLenBytes))) r1 of
        None \<Rightarrow> []
      | Some (keyData, r2) \<Rightarrow>
     (case reader_Read 4 r2 of
        None \<Rightarrow> []
      | Some (valueLenBytes, r3) \<Rightarrow>
     (case reader_Read (unat (Uint32 (filled 4 valueLenBytes))) r3 of
        None \<Rightarrow> []
      | Some (valueData, r4) \<Rightarrow>
          \<lparr>Key = filled (unat (Uint32 (filled 4 keyLenBytes))) keyData,
           Value = filled (unat (Uint32 (filled 4 valueLenBytes))) valueData,
           Operation = 0\<rparr> # readEntries r4))))"
  by pat_completeness auto
termination
proof (relation "measure remaining")
  show "wf (measure remaining)" by simp
next
  fix r x2 keyLenBytes r1 x2a keyData r2 x2b valueLenBytes r3 x2c valueData r4
  assume a: "reader_Read 4 r = Some x2" "(keyLenBytes, r1) = x2"
    "reader_Read (unat (Uint32 (filled 4 keyLenBytes))) r1 = Some x2a" "(keyData, r2) = x2a"
    "reader_Read 4 r2 = Some x2b" "(valueLenBytes, r3) = x2b"
    "reader_Read (unat (Uint32 (filled 4 valueLenBytes))) r3 = Some x2c" "(valueData, r4) = x2c"
  from a(1,2) have "remaining r1 < remaining r"
    using reader_Read_less [of 4 r keyLenBytes r1] by simp
  moreover from a(3,4) have "remaining r2 \<le> remaining r1"
    using reader_Read_le [of _ r1 keyData r2] by simp
  moreover from a(5,6) have "remaining r3 \<le> remaining r2"
    using reader_Read_le [of 4 r2 valueLenBytes r3] by simp
  moreover from a(7,8) have "remaining r4 \<le> remaining r3"
    using reader_Read_le [of _ r3 valueData r4] by simp
  ultimately show "(r4, r) \<in> measure remaining" by simp
qed

declare readEntries.simps [simp del]

section \<open>The in-memory store\<close>

text \<open>
  \<^verbatim>\<open>memDB\<close> without its mutex and its flush interval, which no operation reads. The log is
  the one the store points to.
\<close>

record memDB =
  data :: "KeyValue list"
  wal :: WriteAheadLog
  sstFileLoaded :: bool
  setData :: "KeyValue list"
  deleteData :: "KeyValue list"

definition calculateChecksum :: "KeyValue list \<Rightarrow> 32 word" where
  "calculateChecksum d = crc32_IEEE (concat (map (\<lambda>kv. Key kv @ Value kv) d))"

text \<open>
  \<^verbatim>\<open>loadSSTFile\<close>: the stored checksum is the last four bytes of the file; the entries are
  read from offset 0; the checksum compared is that of all of \<^verbatim>\<open>mem.data\<close> after the loop.
\<close>

definition loadSSTFile :: "string \<Rightarrow> filesystem \<Rightarrow> memDB \<Rightarrow> error option \<times> memDB" where
  "loadSSTFile fileName fs mem =
     (if sstFileLoaded mem then (None, mem)
      else case fs fileName of
        None \<Rightarrow> (Some OpenError, mem)
      | Some content \<Rightarrow>
          if length content < 4 then (Some SeekChecksumError, mem)
          else
            let storedChecksum = Uint32 (drop (length content - 4) content);
                mem1 = mem\<lparr>data := data mem @ readEntries ([], content)\<rparr>;
                loadedChecksum = calculateChecksum (data mem1)
            in if loadedChecksum \<noteq> storedChecksum then (Some IntegrityError, mem1)
               else (None, mem1\<lparr>sstFileLoaded := True\<rparr>))"

text \<open>\<^verbatim>\<open>Set\<close>: the result of \<^verbatim>\<open>AppendEntry\<close> is dropped; the entry is appended; nil.\<close>

definition mem_Set :: "bytes \<Rightarrow> bytes \<Rightarrow> memDB \<Rightarrow> error option \<times> memDB" where
  "mem_Set key val mem =
     (let entry = \<lparr>Key = key, Value = val, Operation = 0\<rparr>;
          w = snd (AppendEntry Set_op entry (wal mem))
      in (None, mem\<lparr>data := data mem @ [entry], wal := w\<rparr>))"

text \<open>The first entry with the key, and the list without it.\<close>

fun removeFirst :: "bytes \<Rightarrow> KeyValue list \<Rightarrow> (KeyValue \<times> KeyValue list) option" where
  "removeFirst key [] = None"
| "removeFirst key (kv # rest) =
     (if Key kv = key then Some (kv, rest)
      else case removeFirst key rest of
        None \<Rightarrow> None
      | Some (found, rest') \<Rightarrow> Some (found, kv # rest'))"

definition mem_Del :: "bytes \<Rightarrow> memDB \<Rightarrow> (error + bytes) \<times> memDB" where
  "mem_Del key mem =
     (case removeFirst key (data mem) of
        None \<Rightarrow> (Inl KeyDoesNotExist, mem)
      | Some (kv, rest) \<Rightarrow>
          (Inr (Value kv),
           mem\<lparr>data := rest, wal := snd (AppendEntry Delete_op kv (wal mem))\<rparr>))"

text \<open>The first value stored under the key: both scans of \<^verbatim>\<open>Get\<close>.\<close>

fun lookup :: "bytes \<Rightarrow> KeyValue list \<Rightarrow> bytes option" where
  "lookup key [] = None"
| "lookup key (kv # rest) = (if Key kv = key then Some (Value kv) else lookup key rest)"

text \<open>\<^verbatim>\<open>fmt.Sprintf("%d", n)\<close> and the file name \<^verbatim>\<open>Get\<close> and \<^verbatim>\<open>createSSTFile\<close> build from the clock.\<close>

fun decimal :: "nat \<Rightarrow> string" where
  "decimal n =
     (if n < 10 then [''0123456789'' ! n] else decimal (n div 10) @ [''0123456789'' ! (n mod 10)])"

declare decimal.simps [simp del]

definition Sprintf_d :: "int \<Rightarrow> string" where
  "Sprintf_d i = (if i < 0 then CHR ''-'' # decimal (nat (- i)) else decimal (nat i))"

definition sstFileName :: "int \<Rightarrow> string" where
  "sstFileName now = ''file_'' @ Sprintf_d now @ ''.sst''"

text \<open>\<^verbatim>\<open>Get\<close>, at clock second \<open>now\<close> (\<^verbatim>\<open>time.Now().Unix()\<close>).\<close>

definition mem_Get :: "int \<Rightarrow> bytes \<Rightarrow> filesystem \<Rightarrow> memDB \<Rightarrow> (error + bytes) \<times> memDB" where
  "mem_Get now key fs mem =
     (case lookup key (data mem) of
        Some v \<Rightarrow> (Inr v, mem)
      | None \<Rightarrow>
          (case (if \<not> sstFileLoaded mem then loadSSTFile (sstFileName now) fs mem else (None, mem)) of
             (Some err, mem1) \<Rightarrow> (Inl err, mem1)
           | (None, mem1) \<Rightarrow>
               (case lookup key (data mem1) of
                  Some v \<Rightarrow> (Inr v, mem1)
                | None \<Rightarrow> (Inl KeyNotFound, mem1))))"

definition mem_GetAll :: "memDB \<Rightarrow> KeyValue list \<times> memDB" where
  "mem_GetAll mem = (data mem, mem)"

text \<open>\<^verbatim>\<open>NewMemDB\<close> over an open, empty log with room for \<open>room\<close> bytes.\<close>

definition NewWriteAheadLog :: "nat \<Rightarrow> WriteAheadLog" where
  "NewWriteAheadLog room = \<lparr>wal_file = \<lparr>f_contents = [], f_closed = False, f_space = room\<rparr>, watermark = 0\<rparr>"

definition NewMemDB :: "WriteAheadLog \<Rightarrow> memDB" where
  "NewMemDB w = \<lparr>data = [], wal = w, sstFileLoaded = False, setData = [], deleteData = []\<rparr>"

section \<open>Writing a segment file\<close>

text \<open>
  One entry as \<^verbatim>\<open>createSSTFile\<close> and \<^verbatim>\<open>mergeSSTFiles\<close> write it: key length, key, value length,
  value, the lengths as \<^verbatim>\<open>uint32\<close>.
\<close>

definition encodeEntry :: "bytes \<Rightarrow> bytes \<Rightarrow> bytes" where
  "encodeEntry k v = le32 (of_nat (length k)) @ k @ le32 (of_nat (length v)) @ v"

text \<open>A write of \<open>b\<close> at offset \<open>off\<close> of a file (after a \<^verbatim>\<open>Seek\<close>), over what is there.\<close>

definition writeAt :: "nat \<Rightarrow> bytes \<Rightarrow> bytes \<Rightarrow> bytes" where
  "writeAt off b content = filled off (take off content) @ b @ drop (off + length b) content"

definition magicNumber :: "32 word" where
  "magicNumber = 0x12345678"

definition version :: "16 word" where
  "version = 1"

definition checksumOffset :: nat where
  "checksumOffset = 14"

text \<open>
  What \<^verbatim>\<open>compress/gzip\<close> writes when a \<^verbatim>\<open>gzip.Writer\<close> that was never written to is closed:
  the ten-byte header, one empty stored block, and the CRC-32 and length of no data.
  \<^verbatim>\<open>createSSTFile\<close> makes such a writer over the segment file and closes it on return
  (\<^verbatim>\<open>defer gzWriter.Close()\<close>), so these bytes land at the file's offset at that moment.
\<close>

definition gzipEmptyStream :: bytes where
  "gzipEmptyStream =
     [0x1f, 0x8b, 8, 0, 0, 0, 0, 0, 0, 0xff,  1, 0, 0, 0xff, 0xff,  0, 0, 0, 0,  0, 0, 0, 0]"

text \<open>
  \<^verbatim>\<open>createSSTFile\<close> at clock second \<open>now\<close>. Nothing happens on an empty store. Otherwise the
  entries are sorted by key (\<^verbatim>\<open>sort.Slice\<close>; entries with equal keys keep their order here),
  the header (magic number, version, entry count, the two key lengths, three zero
  placeholders) and the entries are written, the checksum is written at offset 14, the
  deferred close of the gzip writer follows at offset 18, and the store is emptied.
\<close>

definition createSSTFile :: "int \<Rightarrow> filesystem \<Rightarrow> memDB \<Rightarrow> error option \<times> filesystem \<times> memDB" where
  "createSSTFile now fs mem =
     (if data mem = [] then (None, fs, mem)
      else
        let sorted = sort_key Key (data mem);
            fileName = sstFileName now;
            entryCount = (of_nat (length sorted) :: 32 word);
            smallestKey = Key (hd sorted);
            largestKey = Key (last sorted);
            header = le32 magicNumber @ le16 version @ le32 entryCount
                       @ le32 (of_nat (length smallestKey)) @ le32 (of_nat (length largestKey))
                       @ le32 0 @ le32 0 @ le32 0;
            body = concat (map (\<lambda>kv. encodeEntry (Key kv) (Value kv)) sorted);
            written = writeAt checksumOffset (le32 (calculateChecksum sorted)) (header @ body);
            closed = writeAt (checksumOffset + 4) gzipEmptyStream written
        in (None, fs(fileName \<mapsto> closed), mem\<lparr>data := []\<rparr>))"




section \<open>Compaction\<close>

text \<open>
  \<^verbatim>\<open>bufio.Scanner\<close> with the default split function: lines end at byte 10, a trailing byte
  13 is dropped, a last line without newline counts when it is not empty. A line of
  65536 bytes or more does not fit the scanner's buffer: the scan stops there and
  \<^verbatim>\<open>scanner.Err()\<close> is set (the second component). The first argument is the line read so far.
\<close>

definition maxScanTokenSize :: nat where
  "maxScanTokenSize = 65536"

definition dropCR :: "bytes \<Rightarrow> bytes" where
  "dropCR l = (if l \<noteq> [] \<and> last l = 13 then butlast l else l)"

fun scanLines :: "bytes \<Rightarrow> bytes \<Rightarrow> bytes list \<times> bool" where
  "scanLines cur [] =
     (if cur = [] then ([], False)
      else if maxScanTokenSize \<le> length cur then ([], True)
      else ([dropCR cur], False))"
| "scanLines cur (b # bs) =
     (if b = 10 then
        (if maxScanTokenSize \<le> length cur then ([], True)
         else case scanLines [] bs of (ls, tooLong) \<Rightarrow> (dropCR cur # ls, tooLong))
      else scanLines (cur @ [b]) bs)"

text \<open>
  The body of the scan loop of \<^verbatim>\<open>mergeSSTFiles\<close>: each line goes through \<^verbatim>\<open>json.Unmarshal\<close>
  (the parameter \<open>unmarshal\<close>; \<open>None\<close> is its error) and the entry's value is stored under
  its key in \<^verbatim>\<open>mergedData\<close>, whatever its operation.
\<close>

fun mergeLines :: "(bytes \<Rightarrow> KeyValue option) \<Rightarrow> bytes list \<Rightarrow> (bytes \<rightharpoonup> bytes) \<Rightarrow> (bytes \<rightharpoonup> bytes) option" where
  "mergeLines unmarshal [] mergedData = Some mergedData"
| "mergeLines unmarshal (line # ls) mergedData =
     (case unmarshal line of
        None \<Rightarrow> None
      | Some keyValue \<Rightarrow> mergeLines unmarshal ls (mergedData(Key keyValue \<mapsto> Value keyValue)))"

text \<open>
  The loop over the input files: open, scan, and then remove the file, before the next
  file is opened and before anything is written to the new file.
\<close>

fun readSegments :: "(bytes \<Rightarrow> KeyValue option) \<Rightarrow> string list \<Rightarrow> (bytes \<rightharpoonup> bytes) \<Rightarrow> filesystem
    \<Rightarrow> error option \<times> (bytes \<rightharpoonup> bytes) \<times> filesystem" where
  "readSegments unmarshal [] mergedData fs = (None, mergedData, fs)"
| "readSegments unmarshal (fileName # rest) mergedData fs =
     (case fs fileName of
        None \<Rightarrow> (Some OpenError, mergedData, fs)
      | Some content \<Rightarrow>
          (case scanLines [] content of (ls, tooLong) \<Rightarrow>
             (case mergeLines unmarshal ls mergedData of
                None \<Rightarrow> (Some UnmarshalError, mergedData, fs)
              | Some mergedData' \<Rightarrow>
                  if tooLong then (Some ScannerError, mergedData', fs)
                  else readSegments unmarshal rest mergedData' (fs(fileName := None)))))"

text \<open>
  \<^verbatim>\<open>mergeSSTFiles\<close>. Go leaves the order in which \<^verbatim>\<open>range mergedData\<close> visits the keys open;
  \<open>order\<close> is that order, and \<open>rangeOrder\<close> says that it visits every key once. The new
  file is created first; what is written goes to the file created, which is no longer
  in the directory when its own name was among the inputs.
\<close>

definition rangeOrder :: "(bytes \<rightharpoonup> bytes) \<Rightarrow> bytes list \<Rightarrow> bool" where
  "rangeOrder mergedData order = (distinct order \<and> set order = dom mergedData)"

definition writeMerged :: "(bytes \<rightharpoonup> bytes) \<Rightarrow> bytes list \<Rightarrow> bytes" where
  "writeMerged mergedData order =
     concat (map (\<lambda>k. case mergedData k of None \<Rightarrow> [] | Some v \<Rightarrow> encodeEntry k v) order)"

definition mergeSSTFiles :: "(bytes \<Rightarrow> KeyValue option) \<Rightarrow> bytes list \<Rightarrow> string list \<Rightarrow> string \<Rightarrow> filesystem
    \<Rightarrow> error option \<times> filesystem" where
  "mergeSSTFiles unmarshal order fileNames newFileName fs =
     (case readSegments unmarshal fileNames Map.empty (fs(newFileName \<mapsto> [])) of
        (Some err, mergedData, fs1) \<Rightarrow> (Some err, fs1)
      | (None, mergedData, fs1) \<Rightarrow>
          (None, case fs1 newFileName of
                   None \<Rightarrow> fs1
                 | Some _ \<Rightarrow> fs1(newFileName \<mapsto> writeMerged mergedData order)))"

text \<open>
  \<^verbatim>\<open>getSSTFileNames\<close> lists the directory \<^verbatim>\<open>./GO_PROJECT\<close> (\<open>None\<close>: it cannot be read) and keeps
  the names ending in \<^verbatim>\<open>.sst\<close>; \<^verbatim>\<open>compactSSTFiles\<close> merges them when they are more than
  \<open>maxSSTFiles\<close> and then removes each of them again.
\<close>

definition HasSuffix :: "string \<Rightarrow> string \<Rightarrow> bool" where
  "HasSuffix s suffix = (length suffix \<le> length s \<and> drop (length s - length suffix) s = suffix)"

definition getSSTFileNames :: "string list option \<Rightarrow> error + string list" where
  "getSSTFileNames dir =
     (case dir of None \<Rightarrow> Inl ListingError | Some names \<Rightarrow> Inr (filter (\<lambda>n. HasSuffix n ''.sst'') names))"

fun removeFiles :: "string list \<Rightarrow> filesystem \<Rightarrow> error option \<times> filesystem" where
  "removeFiles [] fs = (None, fs)"
| "removeFiles (fileName # rest) fs =
     (case fs fileName of
        None \<Rightarrow> (Some RemoveError, fs)
      | Some _ \<Rightarrow> removeFiles rest (fs(fileName := None)))"

definition compactSSTFiles :: "(bytes \<Rightarrow> KeyValue option) \<Rightarrow> bytes list \<Rightarrow> int \<Rightarrow> int \<Rightarrow> string list option
    \<Rightarrow> filesystem \<Rightarrow> error option \<times> filesystem" where
  "compactSSTFiles unmarshal order now maxSSTFiles dir fs =
     (case getSSTFileNames dir of
        Inl err \<Rightarrow> (Some err, fs)
      | Inr sstFiles \<Rightarrow>
          if int (length sstFiles) \<le> maxSSTFiles then (None, fs)
          else
            (case mergeSSTFiles unmarshal order (sort sstFiles)
                    (''merged_sst_file_'' @ Sprintf_d now @ ''.sst'') fs of
               (Some err, fs1) \<Rightarrow> (Some err, fs1)
             | (None, fs1) \<Rightarrow> removeFiles (sort sstFiles) fs1))"

text \<open>
  A run of \<^verbatim>\<open>Set\<close> calls, one per pair, in order (the loop of \<^verbatim>\<open>TestPerformance\<close>).
\<close>

fun setAll :: "(bytes \<times> bytes) list \<Rightarrow> memDB \<Rightarrow> memDB" where
  "setAll [] mem = mem"
| "setAll ((k, v) # kvs) mem = setAll kvs (snd (mem_Set k v mem))"

text \<open>
  For the statements about the merge: the entries \<^verbatim>\<open>mergeSSTFiles\<close> decodes from one input file,
  in file order, and, following the specification's words, the value of the newest entry
  with a given key in a list of entries ordered oldest first.
\<close>

definition segmentEntries :: "(bytes \<Rightarrow> KeyValue option) \<Rightarrow> filesystem \<Rightarrow> string \<Rightarrow> KeyValue list" where
  "segmentEntries unmarshal fs fileName =
     (case fs fileName of None \<Rightarrow> [] | Some content \<Rightarrow> List.map_filter unmarshal (fst (scanLines [] content)))"

definition newestValue :: "KeyValue list \<Rightarrow> bytes \<rightharpoonup> bytes" where
  "newestValue entries k = map_option Value (List.find (\<lambda>kv. Key kv = k) (rev entries))"

text \<open>
  Example data. A line as \<^verbatim>\<open>json.Marshal\<close> writes a \<^verbatim>\<open>KeyValue\<close> (byte slices in base64), a
  decoder that agrees with \<^verbatim>\<open>json.Unmarshal\<close> on five such lines and rejects everything else,
  two files of two lines each (\<open>k1:v1, k2:v2\<close> and \<open>k2:v3, k3:v4\<close>), and the binary segments
  that \<^verbatim>\<open>createSSTFile\<close> writes for the single entry \<open>(a, b)\<close>, for the entries \<open>k1:v1, k2:v2\<close> and
  for the entries \<open>k2:v3, k3:v4\<close>.
\<close>

definition jsonLine :: "string \<Rightarrow> string \<Rightarrow> nat \<Rightarrow> bytes" where
  \<open>jsonLine key64 value64 operation =
     bytes_of (''{"Key":"'' @ key64 @ ''","Value":"'' @ value64 @ ''","Operation":'' @ decimal operation @ ''}'')\<close>

definition exampleUnmarshal :: "bytes \<Rightarrow> KeyValue option" where
  "exampleUnmarshal =
     map_of
       [(jsonLine ''azE='' ''djE='' 0, \<lparr>Key = bytes_of ''k1'', Value = bytes_of ''v1'', Operation = 0\<rparr>),
        (jsonLine ''azI='' ''djI='' 0, \<lparr>Key = bytes_of ''k2'', Value = bytes_of ''v2'', Operation = 0\<rparr>),
        (jsonLine ''azI='' ''djM='' 0, \<lparr>Key = bytes_of ''k2'', Value = bytes_of ''v3'', Operation = 0\<rparr>),
        (jsonLine ''azM='' ''djQ='' 0, \<lparr>Key = bytes_of ''k3'', Value = bytes_of ''v4'', Operation = 0\<rparr>),
        (jsonLine ''azE='' ''djE='' 1, \<lparr>Key = bytes_of ''k1'', Value = bytes_of ''v1'', Operation = 1\<rparr>)]"

definition segmentA :: bytes where
  "segmentA = jsonLine ''azE='' ''djE='' 0 @ [10] @ jsonLine ''azI='' ''djI='' 0 @ [10]"

definition segmentB :: bytes where
  "segmentB = jsonLine ''azI='' ''djM='' 0 @ [10] @ jsonLine ''azM='' ''djQ='' 0 @ [10]"

definition exampleSegment :: bytes where
  "exampleSegment =
     [120, 86, 52, 18, 1, 0, 1, 0, 0, 0, 1, 0, 0, 0, 109, 72, 131, 158, 31, 139, 8, 0, 0, 0, 0, 0, 0,
      255, 1, 0, 0, 255, 255, 0, 0, 0, 0, 0, 0, 0, 0]"

definition writtenA :: bytes where
  "writtenA =
     [120, 86, 52, 18, 1, 0, 2, 0, 0, 0, 2, 0, 0, 0, 132, 124, 247, 221, 31, 139, 8, 0, 0, 0, 0, 0, 0,
      255, 1, 0, 0, 255, 255, 0, 0, 0, 0, 0, 0, 0, 0, 49, 2, 0, 0, 0, 107, 50, 2, 0, 0, 0, 118, 50]"

definition writtenB :: bytes where
  "writtenB =
     [120, 86, 52, 18, 1, 0, 2, 0, 0, 0, 2, 0, 0, 0, 123, 250, 126, 126, 31, 139, 8, 0, 0, 0, 0, 0, 0,
      255, 1, 0, 0, 255, 255, 0, 0, 0, 0, 0, 0, 0, 0, 51, 2, 0, 0, 0, 107, 51, 2, 0, 0, 0, 118, 52]"


section \<open>Facts about the store's list\<close>

lemmas eval_defs = NewMemDB_def NewWriteAheadLog_def sstFileName_def Sprintf_d_def decimal.simps
  bytes_of_def le32_def le16_def Uint32_def filled_def bufSize_def reader_Read_def
  calculateChecksum_def crc32_IEEE_def crc32_byte_def crc32_bit_def

lemma lookup_None_iff: "lookup key xs = None \<longleftrightarrow> key \<notin> Key ` set xs"
  by (induction xs) auto

lemma data_mem_Set:
  "data (snd (mem_Set k v mem)) = data mem @ [\<lparr>Key = k, Value = v, Operation = 0\<rparr>]"
  by (simp add: mem_Set_def Let_def)

lemma data_setAll:
  "data (setAll kvs mem) = data mem @ map (\<lambda>(k, v). \<lparr>Key = k, Value = v, Operation = 0\<rparr>) kvs"
  by (induction kvs mem rule: setAll.induct) (simp_all add: data_mem_Set)

lemma removeFirst_split:
  "key \<notin> Key ` set pre \<Longrightarrow> Key kv = key \<Longrightarrow> removeFirst key (pre @ kv # post) = Some (kv, pre @ post)"
  by (induction pre) auto

lemma removeFirst_None: "removeFirst key xs = None \<longleftrightarrow> key \<notin> Key ` set xs"
  by (induction xs) (auto split: option.splits)

lemma AppendEntry_fits:
  assumes "\<not> f_closed (wal_file w)" "5 + length (Key e) + length (Value e) \<le> f_space (wal_file w)"
  shows "fst (AppendEntry operation e w) = None"
    and "f_contents (wal_file (snd (AppendEntry operation e w))) =
           f_contents (wal_file w) @ [operation] @ le16 (of_nat (length (Key e))) @ Key e
             @ le16 (of_nat (length (Value e))) @ Value e"
  using assms by (auto simp add: AppendEntry_def wal_Write_def file_Write_def le16_def)

section \<open>Set and Get\<close>

text \<open>
  Claim C1 (overwrite semantics of set: after \<open>set(k, v1)\<close> and \<open>set(k, v2)\<close>, \<open>get(k)\<close> returns
  \<open>v2\<close>). The code does otherwise: \<^verbatim>\<open>Set\<close> appends without replacing and \<^verbatim>\<open>Get\<close> returns the
  first entry with the key, so on a new store the two calls are followed by a \<^verbatim>\<open>Get\<close> that
  returns \<open>v1\<close>, the older value, whatever the clock and the directory hold.
\<close>

theorem set_set_get_returns_first_write:
  "fst (mem_Get now k fs (snd (mem_Set k v2 (snd (mem_Set k v1 (NewMemDB w)))))) = Inr v1"
  by (simp add: mem_Get_def mem_Set_def NewMemDB_def Let_def)

text \<open>
  Claim C5 (set fails with an I/O error whenever the log append fails). The code does
  otherwise: on a log whose file handle is closed \<^verbatim>\<open>AppendEntry\<close> returns a write error, and
  \<^verbatim>\<open>Set\<close> on a store over that log still returns nil and makes the entry visible, the log
  unchanged.
\<close>

theorem set_acknowledged_when_append_fails:
  "fst (AppendEntry Set_op \<lparr>Key = k, Value = v, Operation = 0\<rparr>
          \<lparr>wal_file = \<lparr>f_contents = c, f_closed = True, f_space = room\<rparr>, watermark = wm\<rparr>)
     = Some WriteError
   \<and> mem_Set k v (NewMemDB \<lparr>wal_file = \<lparr>f_contents = c, f_closed = True, f_space = room\<rparr>, watermark = wm\<rparr>)
     = (None, \<lparr>data = [\<lparr>Key = k, Value = v, Operation = 0\<rparr>],
               wal = \<lparr>wal_file = \<lparr>f_contents = c, f_closed = True, f_space = room\<rparr>, watermark = wm\<rparr>,
               sstFileLoaded = False, setData = [], deleteData = []\<rparr>)"
  by (simp add: AppendEntry_def wal_Write_def file_Write_def mem_Set_def NewMemDB_def Let_def)

text \<open>
  Claim C10 (get is not read-only). Whenever the key is not in the in-memory list and no
  segment file has been loaded yet, \<^verbatim>\<open>Get\<close> leaves in \<^verbatim>\<open>mem.data\<close> the list it found followed by
  every entry decoded from the segment file named after the current second (none when
  the file is missing or shorter than four bytes), whether or not it then returns an
  error. That list is what \<^verbatim>\<open>GetAll\<close> returns and what \<^verbatim>\<open>createSSTFile\<close> writes.
\<close>

theorem get_appends_segment_entries:
  assumes "lookup key (data mem) = None" and "\<not> sstFileLoaded mem"
  shows "data (snd (mem_Get now key fs mem)) =
           data mem @ (case fs (sstFileName now) of
                         None \<Rightarrow> []
                       | Some content \<Rightarrow> if length content < 4 then [] else readEntries ([], content))"
  using assms
  by (auto simp: mem_Get_def loadSSTFile_def Let_def split: option.splits)

text \<open>
  At a concrete store: a \<^verbatim>\<open>Get\<close> of key \<open>x\<close> on a new store, with a segment file holding the
  entry \<open>(k, v)\<close>, leaves that entry in memory, and \<^verbatim>\<open>GetAll\<close> returns another list than before.
\<close>

theorem get_appends_segment_entries_witness:
  "lookup (bytes_of ''x'') (data (NewMemDB (NewWriteAheadLog 0))) = None
   \<and> \<not> sstFileLoaded (NewMemDB (NewWriteAheadLog 0))
   \<and> data (snd (mem_Get 5 (bytes_of ''x'')
          [''file_5.sst'' \<mapsto> [1, 0, 0, 0, 107, 1, 0, 0, 0, 118, 154, 116, 182, 126]]
          (NewMemDB (NewWriteAheadLog 0))))
       = [\<lparr>Key = bytes_of ''k'', Value = bytes_of ''v'', Operation = 0\<rparr>]
   \<and> fst (mem_GetAll (snd (mem_Get 5 (bytes_of ''x'')
          [''file_5.sst'' \<mapsto> [1, 0, 0, 0, 107, 1, 0, 0, 0, 118, 154, 116, 182, 126]]
          (NewMemDB (NewWriteAheadLog 0)))))
       \<noteq> fst (mem_GetAll (NewMemDB (NewWriteAheadLog 0)))"
proof -
  have h1: "lookup (bytes_of ''x'') (data (NewMemDB (NewWriteAheadLog 0))) = None"
    by (simp add: NewMemDB_def)
  have h2: "\<not> sstFileLoaded (NewMemDB (NewWriteAheadLog 0))"
    by (simp add: NewMemDB_def)
  have r: "readEntries ([], [1, 0, 0, 0, 107, 1, 0, 0, 0, 118, 154, 116, 182, 126])
             = [\<lparr>Key = bytes_of ''k'', Value = bytes_of ''v'', Operation = 0\<rparr>]"
    by (simp add: readEntries.simps eval_defs)
  have n: "sstFileName 5 = ''file_5.sst''"
    by (simp add: eval_defs)
  show ?thesis
    using get_appends_segment_entries [OF h1 h2, of 5
        "[''file_5.sst'' \<mapsto> [1, 0, 0, 0, 107, 1, 0, 0, 0, 118, 154, 116, 182, 126]]"]
    by (simp add: h1 h2 r n mem_GetAll_def) (simp add: NewMemDB_def)
qed

section \<open>GetAll\<close>

text \<open>
  A new store filled by \<^verbatim>\<open>Set\<close> calls whose keys are pairwise distinct: \<^verbatim>\<open>GetAll\<close> returns
  exactly the pairs set, in call order.
\<close>

lemma getall_after_distinct_sets:
  assumes "distinct (map fst kvs)"
  shows "distinct (map Key (fst (mem_GetAll (setAll kvs (NewMemDB w)))))
         \<and> map (\<lambda>e. (Key e, Value e)) (fst (mem_GetAll (setAll kvs (NewMemDB w)))) = kvs
         \<and> snd (mem_GetAll (setAll kvs (NewMemDB w))) = setAll kvs (NewMemDB w)"
proof -
  have d: "data (setAll kvs (NewMemDB w)) = map (\<lambda>(k, v). \<lparr>Key = k, Value = v, Operation = 0\<rparr>) kvs"
    by (simp add: data_setAll NewMemDB_def)
  have k: "map Key (data (setAll kvs (NewMemDB w))) = map fst kvs"
    unfolding d by (induction kvs) auto
  have p: "map (\<lambda>e. (Key e, Value e)) (data (setAll kvs (NewMemDB w))) = kvs"
    unfolding d by (induction kvs) auto
  from assms show ?thesis
    by (simp add: mem_GetAll_def k p)
qed

lemma lookup_distinct:
  "distinct (map Key xs) \<Longrightarrow> e \<in> set xs \<Longrightarrow> lookup (Key e) xs = Some (Value e)"
  by (induction xs) (auto simp: image_iff)

text \<open>
  Claim C6, as amended. In every state \<^verbatim>\<open>GetAll\<close> returns the in-memory list as it stands, in
  its order, and changes nothing; it reads no segment file. In every state whose in-memory
  entries have pairwise distinct keys, no two entries returned share a key and every entry
  returned carries the value that \<^verbatim>\<open>Get\<close> returns for its key. A new store filled by \<^verbatim>\<open>Set\<close>
  calls on pairwise distinct keys is such a state, and there the list returned holds
  exactly the pairs set, in call order.
\<close>

theorem getall_returns_live_entries:
  "mem_GetAll mem = (data mem, mem)
   \<and> (distinct (map Key (data mem)) \<longrightarrow>
        distinct (map Key (fst (mem_GetAll mem)))
        \<and> (\<forall>e \<in> set (fst (mem_GetAll mem)). mem_Get now (Key e) fs mem = (Inr (Value e), mem)))
   \<and> (distinct (map fst kvs) \<longrightarrow>
        distinct (map Key (data (setAll kvs (NewMemDB w))))
        \<and> map (\<lambda>e. (Key e, Value e)) (fst (mem_GetAll (setAll kvs (NewMemDB w)))) = kvs)"
proof (intro conjI impI ballI)
  show "mem_GetAll mem = (data mem, mem)"
    by (simp add: mem_GetAll_def)
next
  assume "distinct (map Key (data mem))"
  then show "distinct (map Key (fst (mem_GetAll mem)))"
    by (simp add: mem_GetAll_def)
next
  fix e
  assume "distinct (map Key (data mem))" and "e \<in> set (fst (mem_GetAll mem))"
  then have "lookup (Key e) (data mem) = Some (Value e)"
    by (simp add: mem_GetAll_def lookup_distinct)
  then show "mem_Get now (Key e) fs mem = (Inr (Value e), mem)"
    by (simp add: mem_Get_def)
next
  assume d: "distinct (map fst kvs)"
  from getall_after_distinct_sets [OF d, of w]
  show "distinct (map Key (data (setAll kvs (NewMemDB w))))"
    by (simp add: mem_GetAll_def)
  from getall_after_distinct_sets [OF d, of w]
  show "map (\<lambda>e. (Key e, Value e)) (fst (mem_GetAll (setAll kvs (NewMemDB w)))) = kvs"
    by simp
qed

text \<open>
  Two keys set once each on a new store: both entries come back, with distinct keys, and
  \<^verbatim>\<open>Get\<close> of the second key returns the value of the second entry.
\<close>

theorem getall_returns_live_entries_witness:
  "distinct (map fst [(bytes_of ''k1'', bytes_of ''v1''), (bytes_of ''k2'', bytes_of ''v2'')])
   \<and> distinct (map Key (data (setAll [(bytes_of ''k1'', bytes_of ''v1''), (bytes_of ''k2'', bytes_of ''v2'')]
                (NewMemDB (NewWriteAheadLog 100)))))
   \<and> fst (mem_GetAll (setAll [(bytes_of ''k1'', bytes_of ''v1''), (bytes_of ''k2'', bytes_of ''v2'')]
                (NewMemDB (NewWriteAheadLog 100))))
      = [\<lparr>Key = bytes_of ''k1'', Value = bytes_of ''v1'', Operation = 0\<rparr>,
         \<lparr>Key = bytes_of ''k2'', Value = bytes_of ''v2'', Operation = 0\<rparr>]
   \<and> fst (mem_Get 5 (bytes_of ''k2'') Map.empty
          (setAll [(bytes_of ''k1'', bytes_of ''v1''), (bytes_of ''k2'', bytes_of ''v2'')]
                (NewMemDB (NewWriteAheadLog 100))))
      = Inr (bytes_of ''v2'')"
proof -
  let ?kvs = "[(bytes_of ''k1'', bytes_of ''v1''), (bytes_of ''k2'', bytes_of ''v2'')]"
  let ?m = "setAll ?kvs (NewMemDB (NewWriteAheadLog 100))"
  have h: "distinct (map fst ?kvs)"
    by (simp add: bytes_of_def)
  have d: "data ?m = [\<lparr>Key = bytes_of ''k1'', Value = bytes_of ''v1'', Operation = 0\<rparr>,
         \<lparr>Key = bytes_of ''k2'', Value = bytes_of ''v2'', Operation = 0\<rparr>]"
    by (simp add: data_mem_Set NewMemDB_def)
  note t = getall_returns_live_entries [of ?m 5 Map.empty ?kvs "NewWriteAheadLog 100"]
  from t h have k: "distinct (map Key (data ?m))" by blast
  with t have "\<forall>e \<in> set (fst (mem_GetAll ?m)). mem_Get 5 (Key e) Map.empty ?m = (Inr (Value e), ?m)"
    by blast
  moreover have "\<lparr>Key = bytes_of ''k2'', Value = bytes_of ''v2'', Operation = 0\<rparr> \<in> set (fst (mem_GetAll ?m))"
    unfolding mem_GetAll_def fst_conv d by simp
  ultimately have g: "mem_Get 5 (Key \<lparr>Key = bytes_of ''k2'', Value = bytes_of ''v2'', Operation = 0\<rparr>) Map.empty ?m
      = (Inr (Value \<lparr>Key = bytes_of ''k2'', Value = bytes_of ''v2'', Operation = 0\<rparr>), ?m)"
    by blast
  from h k g show ?thesis
    unfolding mem_GetAll_def fst_conv d by simp
qed

text \<open>
  Claim C6 as stated fails in both halves. Keys: after \<^verbatim>\<open>Set(k, a)\<close> and \<^verbatim>\<open>Set(k, b)\<close> on a new
  store the list returned has two entries with key \<open>k\<close>. Segments: once \<^verbatim>\<open>createSSTFile\<close> has
  written a store holding \<open>(a, b)\<close> to \<^verbatim>\<open>file_5.sst\<close>, \<^verbatim>\<open>GetAll\<close> returns nothing although the
  file is there; and on a new store beside a segment file that holds \<open>(k, v)\<close> in the layout
  \<^verbatim>\<open>loadSSTFile\<close> reads, \<^verbatim>\<open>GetAll\<close> returns nothing while \<^verbatim>\<open>Get(k)\<close> finds \<open>v\<close> in the file.
\<close>

theorem getall_counterexample:
  "\<not> distinct (map Key (fst (mem_GetAll
          (setAll [(bytes_of ''k'', bytes_of ''a''), (bytes_of ''k'', bytes_of ''b'')]
             (NewMemDB (NewWriteAheadLog 100))))))
   \<and> (case createSSTFile 5 Map.empty
             (setAll [(bytes_of ''a'', bytes_of ''b'')] (NewMemDB (NewWriteAheadLog 100))) of
        (e, fs, m) \<Rightarrow> e = None \<and> fs ''file_5.sst'' \<noteq> None \<and> fst (mem_GetAll m) = [])
   \<and> fst (mem_GetAll (NewMemDB (NewWriteAheadLog 100))) = []
   \<and> fst (mem_Get 5 (bytes_of ''k'')
             [''file_5.sst'' \<mapsto> [1, 0, 0, 0, 107, 1, 0, 0, 0, 118, 154, 116, 182, 126]]
             (NewMemDB (NewWriteAheadLog 100)))
       = Inr (bytes_of ''v'')"
proof -
  have r: "readEntries ([], [1, 0, 0, 0, 107, 1, 0, 0, 0, 118, 154, 116, 182, 126])
             = [\<lparr>Key = bytes_of ''k'', Value = bytes_of ''v'', Operation = 0\<rparr>]"
    by (simp add: readEntries.simps eval_defs)
  have n: "sstFileName 5 = ''file_5.sst''"
    by (simp add: eval_defs)
  have c: "calculateChecksum [\<lparr>Key = bytes_of ''k'', Value = bytes_of ''v'', Operation = 0\<rparr>]
             = Uint32 [154, 116, 182, 126]"
    by (simp add: eval_defs)
  have 1: "\<not> distinct (map Key (fst (mem_GetAll
          (setAll [(bytes_of ''k'', bytes_of ''a''), (bytes_of ''k'', bytes_of ''b'')]
             (NewMemDB (NewWriteAheadLog 100))))))"
    by (simp add: mem_GetAll_def data_mem_Set NewMemDB_def)
  have 2: "case createSSTFile 5 Map.empty
             (setAll [(bytes_of ''a'', bytes_of ''b'')] (NewMemDB (NewWriteAheadLog 100))) of
        (e, fs, m) \<Rightarrow> e = None \<and> fs ''file_5.sst'' \<noteq> None \<and> fst (mem_GetAll m) = []"
    by (simp add: createSSTFile_def Let_def n mem_GetAll_def data_mem_Set NewMemDB_def)
  have 3: "fst (mem_GetAll (NewMemDB (NewWriteAheadLog 100))) = []"
    by (simp add: mem_GetAll_def NewMemDB_def)
  have 4: "fst (mem_Get 5 (bytes_of ''k'')
             [''file_5.sst'' \<mapsto> [1, 0, 0, 0, 107, 1, 0, 0, 0, 118, 154, 116, 182, 126]]
             (NewMemDB (NewWriteAheadLog 100))) = Inr (bytes_of ''v'')"
    by (simp add: mem_Get_def loadSSTFile_def Let_def NewMemDB_def r n c)
  from 1 2 3 4 show ?thesis by blast
qed

section \<open>Del\<close>

text \<open>
  Claim C7, as amended. \<^verbatim>\<open>Del\<close> of a key that no in-memory entry has fails with "key doesn't
  exist" and changes nothing. \<^verbatim>\<open>Del\<close> of a key that an entry has removes the first such
  entry, returns its value and hands the entry to \<^verbatim>\<open>AppendEntry\<close> with operation Delete; when
  the log is open and has room, the log grows by the record with tag 1, the key and that
  value. Afterwards \<^verbatim>\<open>Get\<close> of the key fails with "key not found" provided no other in-memory
  entry has the key and the segment file has already been loaded.
\<close>

theorem del_semantics:
  "(key \<notin> Key ` set (data mem) \<longrightarrow> mem_Del key mem = (Inl KeyDoesNotExist, mem))
   \<and> (data mem = pre @ kv # post \<and> Key kv = key \<and> key \<notin> Key ` set pre \<longrightarrow>
        mem_Del key mem
          = (Inr (Value kv), mem\<lparr>data := pre @ post, wal := snd (AppendEntry Delete_op kv (wal mem))\<rparr>)
        \<and> (\<not> f_closed (wal_file (wal mem)) \<and> 5 + length key + length (Value kv) \<le> f_space (wal_file (wal mem)) \<longrightarrow>
             f_contents (wal_file (wal (snd (mem_Del key mem))))
               = f_contents (wal_file (wal mem)) @ [Delete_op] @ le16 (of_nat (length key)) @ key
                   @ le16 (of_nat (length (Value kv))) @ Value kv)
        \<and> (key \<notin> Key ` set post \<and> sstFileLoaded mem \<longrightarrow>
             mem_Get now key fs (snd (mem_Del key mem)) = (Inl KeyNotFound, snd (mem_Del key mem))))"
proof (intro conjI impI)
  assume "key \<notin> Key ` set (data mem)"
  then show "mem_Del key mem = (Inl KeyDoesNotExist, mem)"
    by (simp add: mem_Del_def removeFirst_None [THEN iffD2])
next
  assume a: "data mem = pre @ kv # post \<and> Key kv = key \<and> key \<notin> Key ` set pre"
  then show d: "mem_Del key mem
          = (Inr (Value kv), mem\<lparr>data := pre @ post, wal := snd (AppendEntry Delete_op kv (wal mem))\<rparr>)"
    by (simp add: mem_Del_def removeFirst_split)
  {
    assume "\<not> f_closed (wal_file (wal mem)) \<and> 5 + length key + length (Value kv) \<le> f_space (wal_file (wal mem))"
    with a show "f_contents (wal_file (wal (snd (mem_Del key mem))))
               = f_contents (wal_file (wal mem)) @ [Delete_op] @ le16 (of_nat (length key)) @ key
                   @ le16 (of_nat (length (Value kv))) @ Value kv"
      using AppendEntry_fits(2) [of "wal mem" kv Delete_op] by (simp add: d)
  }
  {
    assume "key \<notin> Key ` set post \<and> sstFileLoaded mem"
    with a have "lookup key (pre @ post) = None"
      by (simp add: lookup_None_iff image_Un)
    with \<open>key \<notin> Key ` set post \<and> sstFileLoaded mem\<close>
    show "mem_Get now key fs (snd (mem_Del key mem)) = (Inl KeyNotFound, snd (mem_Del key mem))"
      by (simp add: d mem_Get_def)
  }
qed

text \<open>A store with one entry, the segment file loaded: an absent key, then the present one.\<close>

theorem del_semantics_witness:
  "bytes_of ''z'' \<notin> Key ` set [\<lparr>Key = bytes_of ''k'', Value = bytes_of ''a'', Operation = 0\<rparr>]
   \<and> fst (mem_Del (bytes_of ''z'')
        \<lparr>data = [\<lparr>Key = bytes_of ''k'', Value = bytes_of ''a'', Operation = 0\<rparr>],
         wal = NewWriteAheadLog 100, sstFileLoaded = True, setData = [], deleteData = []\<rparr>)
      = Inl KeyDoesNotExist
   \<and> \<not> f_closed (wal_file (NewWriteAheadLog 100))
   \<and> 5 + length (bytes_of ''k'') + length (bytes_of ''a'') \<le> f_space (wal_file (NewWriteAheadLog 100))
   \<and> bytes_of ''k'' \<notin> Key ` set []
   \<and> fst (mem_Del (bytes_of ''k'')
        \<lparr>data = [\<lparr>Key = bytes_of ''k'', Value = bytes_of ''a'', Operation = 0\<rparr>],
         wal = NewWriteAheadLog 100, sstFileLoaded = True, setData = [], deleteData = []\<rparr>)
      = Inr (bytes_of ''a'')
   \<and> data (snd (mem_Del (bytes_of ''k'')
        \<lparr>data = [\<lparr>Key = bytes_of ''k'', Value = bytes_of ''a'', Operation = 0\<rparr>],
         wal = NewWriteAheadLog 100, sstFileLoaded = True, setData = [], deleteData = []\<rparr>)) = []
   \<and> f_contents (wal_file (wal (snd (mem_Del (bytes_of ''k'')
        \<lparr>data = [\<lparr>Key = bytes_of ''k'', Value = bytes_of ''a'', Operation = 0\<rparr>],
         wal = NewWriteAheadLog 100, sstFileLoaded = True, setData = [], deleteData = []\<rparr>))))
      = [1, 1, 0, 107, 1, 0, 97]
   \<and> fst (mem_Get 5 (bytes_of ''k'') Map.empty (snd (mem_Del (bytes_of ''k'')
        \<lparr>data = [\<lparr>Key = bytes_of ''k'', Value = bytes_of ''a'', Operation = 0\<rparr>],
         wal = NewWriteAheadLog 100, sstFileLoaded = True, setData = [], deleteData = []\<rparr>)))
      = Inl KeyNotFound"
  using del_semantics [of "bytes_of ''z''"
      "\<lparr>data = [\<lparr>Key = bytes_of ''k'', Value = bytes_of ''a'', Operation = 0\<rparr>],
         wal = NewWriteAheadLog 100, sstFileLoaded = True, setData = [], deleteData = []\<rparr>"
      "[]" "\<lparr>Key = bytes_of ''k'', Value = bytes_of ''a'', Operation = 0\<rparr>" "[]" 5 Map.empty]
    del_semantics [of "bytes_of ''k''"
      "\<lparr>data = [\<lparr>Key = bytes_of ''k'', Value = bytes_of ''a'', Operation = 0\<rparr>],
         wal = NewWriteAheadLog 100, sstFileLoaded = True, setData = [], deleteData = []\<rparr>"
      "[]" "\<lparr>Key = bytes_of ''k'', Value = bytes_of ''a'', Operation = 0\<rparr>" "[]" 5 Map.empty]
  by (simp add: bytes_of_def NewWriteAheadLog_def Delete_op_def le16_def mem_Del_def mem_Get_def
        AppendEntry_def wal_Write_def file_Write_def)

text \<open>
  Claim C7 as stated fails. With the key set twice, \<^verbatim>\<open>Del\<close> returns the first value and the
  following \<^verbatim>\<open>Get\<close> returns the second. With the key set once and a segment file of the current
  second that holds the key, the \<^verbatim>\<open>Get\<close> after \<^verbatim>\<open>Del\<close> returns the segment's value; with no
  such file it fails with the error of \<^verbatim>\<open>os.Open\<close>, not with "key not found".
\<close>

theorem del_then_get_counterexample:
  "(case mem_Del (bytes_of ''k'')
           (setAll [(bytes_of ''k'', bytes_of ''a''), (bytes_of ''k'', bytes_of ''b'')]
              (NewMemDB (NewWriteAheadLog 100))) of
      (r, m) \<Rightarrow> r = Inr (bytes_of ''a'') \<and> fst (mem_Get 5 (bytes_of ''k'') Map.empty m) = Inr (bytes_of ''b''))
   \<and> (case mem_Del (bytes_of ''k'') (setAll [(bytes_of ''k'', bytes_of ''a'')] (NewMemDB (NewWriteAheadLog 100))) of
      (r, m) \<Rightarrow> r = Inr (bytes_of ''a'')
        \<and> fst (mem_Get 5 (bytes_of ''k'')
                 [''file_5.sst'' \<mapsto> [1, 0, 0, 0, 107, 1, 0, 0, 0, 118, 154, 116, 182, 126]] m)
            = Inr (bytes_of ''v'')
        \<and> fst (mem_Get 5 (bytes_of ''k'') Map.empty m) = Inl OpenError)"
proof -
  have r: "readEntries ([], [1, 0, 0, 0, 107, 1, 0, 0, 0, 118, 154, 116, 182, 126])
             = [\<lparr>Key = bytes_of ''k'', Value = bytes_of ''v'', Operation = 0\<rparr>]"
    by (simp add: readEntries.simps eval_defs)
  have n: "sstFileName 5 = ''file_5.sst''"
    by (simp add: eval_defs)
  have c: "calculateChecksum [\<lparr>Key = bytes_of ''k'', Value = bytes_of ''v'', Operation = 0\<rparr>]
             = Uint32 [154, 116, 182, 126]"
    by (simp add: eval_defs)
  show ?thesis
    by (simp add: mem_Del_def mem_Get_def loadSSTFile_def mem_Set_def Let_def NewMemDB_def r n c)
qed

section \<open>Segment files written and read back\<close>

text \<open>
  Claim C2 (round trip: a segment file written from a list of entries and read back into
  an empty store yields the entries, sorted). The code does otherwise. \<^verbatim>\<open>createSSTFile\<close>
  writes a 30-byte header, puts the checksum at offset 14 and lets the gzip writer's close
  overwrite what follows; \<^verbatim>\<open>loadSSTFile\<close> takes the last four bytes for the checksum and
  decodes entries from offset 0, so the magic number is read as a key length. For the
  entry \<open>(key1, value1)\<close> the read fails with the integrity error; for \<open>(a, b)\<close> it succeeds
  and loads nothing.
\<close>

theorem segment_written_then_read_loses_entries:
  "(case createSSTFile 1700000000 Map.empty
           ((NewMemDB (NewWriteAheadLog 0))
              \<lparr>data := [\<lparr>Key = bytes_of ''key1'', Value = bytes_of ''value1'', Operation = 0\<rparr>]\<rparr>) of
      (e, fs, m) \<Rightarrow> e = None \<and> data m = []
        \<and> loadSSTFile (sstFileName 1700000000) fs m = (Some IntegrityError, m))
   \<and> (case createSSTFile 1700000000 Map.empty
           ((NewMemDB (NewWriteAheadLog 0))
              \<lparr>data := [\<lparr>Key = bytes_of ''a'', Value = bytes_of ''b'', Operation = 0\<rparr>]\<rparr>) of
      (e, fs, m) \<Rightarrow> e = None \<and> data m = []
        \<and> loadSSTFile (sstFileName 1700000000) fs m = (None, m\<lparr>sstFileLoaded := True\<rparr>))"
  by (simp add: createSSTFile_def loadSSTFile_def readEntries.simps Let_def eval_defs
        magicNumber_def version_def checksumOffset_def gzipEmptyStream_def writeAt_def encodeEntry_def)

text \<open>
  Claim C8 (flipping any byte of a written segment's payload makes the read fail with a
  checksum mismatch). The code does otherwise. The segment written for the entry with key
  \<open>key1\<close> and eight zero bytes as value has 50 bytes, the value at offsets 42 to 49; it
  loads without error, and so does the file with the byte at offset 42 changed from 0 to
  255: no entry is loaded either way.
\<close>

theorem flipped_payload_byte_still_loads:
  "case createSSTFile 1700000000 Map.empty
          ((NewMemDB (NewWriteAheadLog 0))
             \<lparr>data := [\<lparr>Key = bytes_of ''key1'', Value = [0, 0, 0, 0, 0, 0, 0, 0], Operation = 0\<rparr>]\<rparr>) of
     (e, fs, m) \<Rightarrow> e = None \<and>
       (case fs ''file_1700000000.sst'' of
          None \<Rightarrow> False
        | Some content \<Rightarrow>
            length content = 50 \<and> content ! 42 = 0
            \<and> fst (loadSSTFile ''file_1700000000.sst'' fs m) = None
            \<and> fst (loadSSTFile ''file_1700000000.sst'' (fs(''file_1700000000.sst'' \<mapsto> content[42 := 255])) m) = None
            \<and> data (snd (loadSSTFile ''file_1700000000.sst'' (fs(''file_1700000000.sst'' \<mapsto> content[42 := 255])) m)) = [])"
  by (simp add: createSSTFile_def loadSSTFile_def readEntries.simps Let_def eval_defs
        magicNumber_def version_def checksumOffset_def gzipEmptyStream_def writeAt_def encodeEntry_def)

text \<open>
  Both failures in general, for segments of at most 4096 bytes (one fill of the reader's
  buffer). The file \<^verbatim>\<open>createSSTFile\<close> writes starts with the magic number, which the loop of
  \<^verbatim>\<open>loadSSTFile\<close> reads as a key length of 305419896 bytes: the key read swallows the rest of
  the file, the next read is at the end of the file, and no entry is loaded. So the read of
  a written segment never returns an entry, and its outcome does not depend on any byte
  between the magic number and the last four bytes.
\<close>

lemma length_le32: "length (le32 w) = 4"
  by (simp add: le32_def)

lemma length_le16: "length (le16 w) = 2"
  by (simp add: le16_def)

lemma Uint32_magic: "unat (Uint32 (filled 4 (le32 magicNumber))) = 305419896"
  by (simp add: Uint32_def filled_def le32_def magicNumber_def)

lemma readEntries_magic:
  assumes "take 4 content = le32 magicNumber" and "length content \<le> 4096"
  shows "readEntries ([], content) = []"
proof -
  from assms(1) have len: "4 \<le> length content"
    by (metis length_le32 length_take min.cobounded1)
  then have ne: "content \<noteq> []" by auto
  have r1: "reader_Read 4 ([], content) = Some (le32 magicNumber, (drop 4 content, []))"
    using assms ne by (simp add: reader_Read_def bufSize_def)
  have r2: "reader_Read 305419896 (drop 4 content, [])
              = (if drop 4 content = [] then None else Some (drop 4 content, ([], [])))"
    using assms(2) by (simp add: reader_Read_def bufSize_def)
  have r3: "reader_Read 4 ([], []) = None"
    by (simp add: reader_Read_def)
  show ?thesis
    by (subst readEntries.simps) (simp add: r1 r2 r3 Uint32_magic)
qed

lemma take_writeAt:
  "n \<le> off \<Longrightarrow> n \<le> length content \<Longrightarrow> take n (writeAt off b content) = take n content"
  by (simp add: writeAt_def filled_def min_def)

lemma length_writeAt: "off \<le> length content \<Longrightarrow> length content \<le> length (writeAt off b content)"
  by (simp add: writeAt_def filled_def)

lemma createSSTFile_magic:
  assumes "data mem \<noteq> []"
  shows "fst (createSSTFile now fs mem) = None"
    and "data (snd (snd (createSSTFile now fs mem))) = []"
    and "\<exists>content. fst (snd (createSSTFile now fs mem)) (sstFileName now) = Some content
           \<and> take 4 content = le32 magicNumber \<and> 30 \<le> length content"
proof -
  show "fst (createSSTFile now fs mem) = None" "data (snd (snd (createSSTFile now fs mem))) = []"
    using assms by (simp_all add: createSSTFile_def Let_def)
  define hb where "hb = le32 magicNumber @ le16 version @ le32 (of_nat (length (sort_key Key (data mem))))
      @ le32 (of_nat (length (Key (hd (sort_key Key (data mem))))))
      @ le32 (of_nat (length (Key (last (sort_key Key (data mem))))))
      @ le32 0 @ le32 0 @ le32 0
      @ concat (map (\<lambda>kv. encodeEntry (Key kv) (Value kv)) (sort_key Key (data mem)))"
  define w1 where "w1 = writeAt checksumOffset (le32 (calculateChecksum (sort_key Key (data mem)))) hb"
  define w2 where "w2 = writeAt (checksumOffset + 4) gzipEmptyStream w1"
  have c: "fst (snd (createSSTFile now fs mem)) (sstFileName now) = Some w2"
    using assms by (simp add: createSSTFile_def Let_def w2_def w1_def hb_def)
  have l0: "30 \<le> length hb" by (simp add: hb_def length_le32 length_le16)
  have "length hb \<le> length w1"
    unfolding w1_def using l0 by (intro length_writeAt) (simp add: checksumOffset_def)
  with l0 have l1: "30 \<le> length w1" by simp
  have "length w1 \<le> length w2"
    unfolding w2_def using l1 by (intro length_writeAt) (simp add: checksumOffset_def)
  with l1 have l2: "30 \<le> length w2" by simp
  have "take 4 w2 = take 4 w1"
    unfolding w2_def using l1 by (intro take_writeAt) (simp_all add: checksumOffset_def)
  also have "\<dots> = take 4 hb"
    unfolding w1_def using l0 by (intro take_writeAt) (simp_all add: checksumOffset_def)
  also have "\<dots> = le32 magicNumber" by (simp add: hb_def length_le32)
  finally show "\<exists>content. fst (snd (createSSTFile now fs mem)) (sstFileName now) = Some content
           \<and> take 4 content = le32 magicNumber \<and> 30 \<le> length content"
    using c l2 by blast
qed

lemma written_segment_reads_back_empty:
  assumes "data mem \<noteq> []" and "createSSTFile now fs mem = (e, fs', mem')"
    and "fs' (sstFileName now) = Some content" and "length content \<le> 4096"
  shows "e = None \<and> data mem' = [] \<and> data (snd (loadSSTFile (sstFileName now) fs' mem')) = []"
proof -
  from createSSTFile_magic [OF assms(1), of now fs] assms(2,3)
  have e: "e = None" and d: "data mem' = []"
    and m: "take 4 content = le32 magicNumber" and l: "30 \<le> length content"
    by auto
  from readEntries_magic [OF m assms(4)] d l assms(3) have
    "data (snd (loadSSTFile (sstFileName now) fs' mem')) = []"
    by (simp add: loadSSTFile_def Let_def)
  with e d show ?thesis by simp
qed

lemma load_ignores_bytes_between_magic_and_tail:
  assumes "take 4 content = le32 magicNumber" and "length content \<le> 4096"
    and "4 \<le> i" and "i + 4 < length content"
  shows "loadSSTFile name (fs(name \<mapsto> content[i := b])) mem = loadSSTFile name (fs(name \<mapsto> content)) mem"
proof -
  have t: "take 4 (content[i := b]) = le32 magicNumber"
    using assms(1,3) by simp
  have r: "readEntries ([], content[i := b]) = []" "readEntries ([], content) = []"
    using readEntries_magic [OF t] readEntries_magic [OF assms(1)] assms(2) by simp_all
  have d: "drop (length content - 4) (content[i := b]) = drop (length content - 4) content"
    using assms(4) by (simp add: drop_update_cancel)
  show ?thesis
    by (simp add: loadSSTFile_def Let_def r d)
qed

section \<open>Segment file names\<close>
















section \<open>Compaction: the merge\<close>

lemma readSegments_stays_removed:
  "fs n = None \<Longrightarrow> snd (snd (readSegments um names md fs)) n = None"
  by (induction names arbitrary: md fs) (auto split: option.splits prod.splits)

lemma readSegments_others:
  "n \<notin> set names \<Longrightarrow> snd (snd (readSegments um names md fs)) n = fs n"
  by (induction names arbitrary: md fs) (auto split: option.splits prod.splits)

lemma readSegments_present:
  "readSegments um names md fs = (None, md', fs') \<Longrightarrow> n \<in> set names \<Longrightarrow> fs n \<noteq> None"
proof (induction names arbitrary: md fs)
  case Nil
  then show ?case by simp
next
  case (Cons a names)
  show ?case
  proof (cases "n = a")
    case True
    with Cons.prems show ?thesis by (auto split: option.splits)
  next
    case False
    with Cons.prems have "n \<in> set names" by simp
    from Cons.prems(1) obtain md1 where "readSegments um names md1 (fs(a := None)) = (None, md', fs')"
      by (auto split: option.splits prod.splits if_splits)
    from Cons.IH [OF this \<open>n \<in> set names\<close>] False show ?thesis by simp
  qed
qed

lemma mergeLines_foldl:
  "mergeLines um ls md = Some md' \<Longrightarrow>
     md' = foldl (\<lambda>m kv. m(Key kv \<mapsto> Value kv)) md (List.map_filter um ls)"
  by (induction ls arbitrary: md) (auto simp: List.map_filter_simps split: option.splits)

lemma segmentEntries_removed:
  "n \<noteq> a \<Longrightarrow> segmentEntries um (fs(a := x)) n = segmentEntries um fs n"
  by (simp add: segmentEntries_def)

lemma readSegments_foldl:
  "readSegments um names md fs = (None, md', fs') \<Longrightarrow>
     md' = foldl (\<lambda>m kv. m(Key kv \<mapsto> Value kv)) md (concat (map (segmentEntries um fs) names))
     \<and> fs' = (\<lambda>n. if n \<in> set names then None else fs n)"
proof (induction names arbitrary: md fs)
  case Nil
  then show ?case by simp
next
  case (Cons a names)
  from Cons.prems obtain content ls md1 where
    c: "fs a = Some content" and s: "scanLines [] content = (ls, False)"
    and m: "mergeLines um ls md = Some md1"
    and r: "readSegments um names md1 (fs(a := None)) = (None, md', fs')"
    by (auto split: option.splits prod.splits if_splits)
  have notin: "a \<notin> set names"
    using readSegments_present [OF r, of a] by auto
  then have same: "map (segmentEntries um (fs(a := None))) names = map (segmentEntries um fs) names"
    by (intro map_cong refl segmentEntries_removed) auto
  have e: "segmentEntries um fs a = List.map_filter um ls"
    by (simp add: segmentEntries_def c s)
  from Cons.IH [OF r] have
    i: "md' = foldl (\<lambda>m kv. m(Key kv \<mapsto> Value kv)) md1
               (concat (map (segmentEntries um (fs(a := None))) names))"
    and f: "fs' = (\<lambda>n. if n \<in> set names then None else (fs(a := None)) n)"
    by blast+
  from i have "md' = foldl (\<lambda>m kv. m(Key kv \<mapsto> Value kv)) md1 (concat (map (segmentEntries um fs) names))"
    unfolding same .
  with mergeLines_foldl [OF m] have
    "md' = foldl (\<lambda>m kv. m(Key kv \<mapsto> Value kv)) md (concat (map (segmentEntries um fs) (a # names)))"
    by (simp add: e)
  moreover from f have "fs' = (\<lambda>n. if n \<in> set (a # names) then None else fs n)"
    by (auto simp: fun_eq_iff)
  ultimately show ?case by blast
qed

lemma newestValue_snoc:
  "newestValue (es @ [e]) k = (if Key e = k then Some (Value e) else newestValue es k)"
  by (simp add: newestValue_def)

lemma foldl_newestValue:
  "foldl (\<lambda>m kv. m(Key kv \<mapsto> Value kv)) md es k
     = (case newestValue es k of Some v \<Rightarrow> Some v | None \<Rightarrow> md k)"
proof (induction es rule: rev_induct)
  case Nil
  then show ?case by (simp add: newestValue_def)
next
  case (snoc e es)
  then show ?case by (simp add: newestValue_snoc)
qed

lemma foldl_empty_newestValue:
  "foldl (\<lambda>m kv. m(Key kv \<mapsto> Value kv)) Map.empty es = newestValue es"
  by (rule ext) (simp add: foldl_newestValue split: option.splits)

lemma dom_newestValue: "dom (newestValue es) = Key ` set es"
proof (induction es rule: rev_induct)
  case Nil
  then show ?case by (auto simp: newestValue_def)
next
  case (snoc e es)
  have "dom (newestValue (es @ [e])) = insert (Key e) (dom (newestValue es))"
    by (auto simp: newestValue_snoc dom_def)
  with snoc show ?case by auto
qed

lemmas merge_eval = jsonLine_def exampleUnmarshal_def segmentA_def segmentB_def bytes_of_def decimal.simps
  maxScanTokenSize_def dropCR_def segmentEntries_def List.map_filter_simps newestValue_def
  rangeOrder_def dom_newestValue writeMerged_def encodeEntry_def le32_def

lemma scanA: "scanLines [] segmentA = ([jsonLine ''azE='' ''djE='' 0, jsonLine ''azI='' ''djI='' 0], False)"
  by (simp add: merge_eval)

lemma scanB: "scanLines [] segmentB = ([jsonLine ''azI='' ''djM='' 0, jsonLine ''azM='' ''djQ='' 0], False)"
  by (simp add: merge_eval)

lemma createSSTFile_exampleSegment:
  "fst (snd (createSSTFile 2 Map.empty
      ((NewMemDB (NewWriteAheadLog 0))\<lparr>data := [\<lparr>Key = bytes_of ''a'', Value = bytes_of ''b'', Operation = 0\<rparr>]\<rparr>)))
     ''file_2.sst'' = Some exampleSegment"
  by (simp add: createSSTFile_def Let_def eval_defs exampleSegment_def
        magicNumber_def version_def checksumOffset_def gzipEmptyStream_def writeAt_def encodeEntry_def)

text \<open>
  Claim C3 (compaction deletes an input segment only after the merged segment is fully
  written, so a failure during the merge leaves every input intact). The code does
  otherwise: \<^verbatim>\<open>mergeSSTFiles\<close> removes each input file as soon as it has scanned it, before it
  opens the next one and before it writes anything. Whenever the first file is read and
  the merge then fails on a later one, for whatever reason, the merge returns that error,
  the first file is gone and the new file is empty.
\<close>

theorem merge_failure_after_first_file_destroys_it:
  assumes "fs a = Some content" and "a \<noteq> new" and "new \<notin> set rest"
    and "scanLines [] content = (ls, False)"
    and "mergeLines um ls Map.empty = Some md"
    and "fst (readSegments um rest md ((fs(new \<mapsto> []))(a := None))) = Some err"
  shows "fst (mergeSSTFiles um order (a # rest) new fs) = Some err
         \<and> snd (mergeSSTFiles um order (a # rest) new fs) a = None
         \<and> snd (mergeSSTFiles um order (a # rest) new fs) new = Some []"
proof -
  obtain md1 fs1 where r: "readSegments um rest md ((fs(new \<mapsto> []))(a := None)) = (Some err, md1, fs1)"
    using assms(6) by (cases "readSegments um rest md ((fs(new \<mapsto> []))(a := None))") auto
  have a: "fs1 a = None"
    using readSegments_stays_removed [of "(fs(new \<mapsto> []))(a := None)" a um rest md] r by simp
  have n: "fs1 new = Some []"
    using readSegments_others [of new rest um md "(fs(new \<mapsto> []))(a := None)"] r assms(2,3) by simp
  from assms(1,2,4,5) r a n show ?thesis
    by (simp add: mergeSSTFiles_def)
qed

text \<open>
  Two input files, the second a binary segment as \<^verbatim>\<open>createSSTFile\<close> writes it, which is no
  JSON line: the merge fails on it, after the first file has been removed; the same
  through \<^verbatim>\<open>compactSSTFiles\<close> with a ceiling of one file.
\<close>

theorem merge_failure_after_first_file_destroys_it_witness:
  "[''file_1.sst'' \<mapsto> segmentA, ''file_2.sst'' \<mapsto> exampleSegment] ''file_1.sst'' = Some segmentA
   \<and> ''file_1.sst'' \<noteq> ''merged_sst_file_3.sst''
   \<and> ''merged_sst_file_3.sst'' \<notin> set [''file_2.sst'']
   \<and> scanLines [] segmentA = ([jsonLine ''azE='' ''djE='' 0, jsonLine ''azI='' ''djI='' 0], False)
   \<and> mergeLines exampleUnmarshal [jsonLine ''azE='' ''djE='' 0, jsonLine ''azI='' ''djI='' 0] Map.empty \<noteq> None
   \<and> fst (mergeSSTFiles exampleUnmarshal [] [''file_1.sst'', ''file_2.sst''] ''merged_sst_file_3.sst''
            [''file_1.sst'' \<mapsto> segmentA, ''file_2.sst'' \<mapsto> exampleSegment]) = Some UnmarshalError
   \<and> snd (mergeSSTFiles exampleUnmarshal [] [''file_1.sst'', ''file_2.sst''] ''merged_sst_file_3.sst''
            [''file_1.sst'' \<mapsto> segmentA, ''file_2.sst'' \<mapsto> exampleSegment]) ''file_1.sst'' = None
   \<and> snd (mergeSSTFiles exampleUnmarshal [] [''file_1.sst'', ''file_2.sst''] ''merged_sst_file_3.sst''
            [''file_1.sst'' \<mapsto> segmentA, ''file_2.sst'' \<mapsto> exampleSegment]) ''merged_sst_file_3.sst'' = Some []
   \<and> fst (compactSSTFiles exampleUnmarshal [] 3 1 (Some [''file_2.sst'', ''file_1.sst'', ''newal.log''])
            [''file_1.sst'' \<mapsto> segmentA, ''file_2.sst'' \<mapsto> exampleSegment]) = Some UnmarshalError
   \<and> snd (compactSSTFiles exampleUnmarshal [] 3 1 (Some [''file_2.sst'', ''file_1.sst'', ''newal.log''])
            [''file_1.sst'' \<mapsto> segmentA, ''file_2.sst'' \<mapsto> exampleSegment]) ''file_1.sst'' = None"
proof -
  let ?fs = "[''file_1.sst'' \<mapsto> segmentA, ''file_2.sst'' \<mapsto> exampleSegment]"
  have h1: "?fs ''file_1.sst'' = Some segmentA" by simp
  have h2: "''file_1.sst'' \<noteq> ''merged_sst_file_3.sst''" by simp
  have h3: "''merged_sst_file_3.sst'' \<notin> set [''file_2.sst'']" by simp
  have m: "mergeLines exampleUnmarshal [jsonLine ''azE='' ''djE='' 0, jsonLine ''azI='' ''djI='' 0] Map.empty
     = Some [bytes_of ''k1'' \<mapsto> bytes_of ''v1'', bytes_of ''k2'' \<mapsto> bytes_of ''v2'']"
    by (simp add: merge_eval)
  have x: "scanLines [] exampleSegment = ([exampleSegment], False)"
    by (simp add: exampleSegment_def maxScanTokenSize_def dropCR_def)
  have u: "exampleUnmarshal exampleSegment = None"
    by (simp add: exampleSegment_def merge_eval)
  have h6: "fst (readSegments exampleUnmarshal [''file_2.sst'']
                  [bytes_of ''k1'' \<mapsto> bytes_of ''v1'', bytes_of ''k2'' \<mapsto> bytes_of ''v2'']
                  ((?fs(''merged_sst_file_3.sst'' \<mapsto> []))(''file_1.sst'' := None))) = Some UnmarshalError"
    by (simp add: x u)
  have names: "sort [''file_2.sst'', ''file_1.sst''] = [''file_1.sst'', ''file_2.sst'']"
    by simp
  note t = merge_failure_after_first_file_destroys_it [OF h1 h2 h3 scanA m h6, of "[]"]
  then obtain fs1 where
    r: "mergeSSTFiles exampleUnmarshal [] [''file_1.sst'', ''file_2.sst''] ''merged_sst_file_3.sst'' ?fs
          = (Some UnmarshalError, fs1)"
    and f: "fs1 ''file_1.sst'' = None" "fs1 ''merged_sst_file_3.sst'' = Some []"
    by (cases "mergeSSTFiles exampleUnmarshal [] [''file_1.sst'', ''file_2.sst''] ''merged_sst_file_3.sst'' ?fs") auto
  from r f h1 h2 h3 scanA m show ?thesis
    by (simp add: compactSSTFiles_def getSSTFileNames_def HasSuffix_def names Sprintf_d_def decimal.simps)
qed

text \<open>
  The segments \<^verbatim>\<open>createSSTFile\<close> writes for the two stores of the specification's example, and
  what the scanner and the decoder of the merge make of the first.
\<close>

lemmas createSSTFile_eval = createSSTFile_def Let_def bytes_of_def le32_def le16_def
  calculateChecksum_def crc32_IEEE_def crc32_byte_def crc32_bit_def filled_def
  magicNumber_def version_def checksumOffset_def gzipEmptyStream_def writeAt_def encodeEntry_def

lemma createSSTFile_writtenA:
  assumes "data mem = [\<lparr>Key = bytes_of ''k1'', Value = bytes_of ''v1'', Operation = 0\<rparr>,
                       \<lparr>Key = bytes_of ''k2'', Value = bytes_of ''v2'', Operation = 0\<rparr>]"
  shows "createSSTFile now fs mem = (None, fs(sstFileName now \<mapsto> writtenA), mem\<lparr>data := []\<rparr>)"
proof -
  have "fst (snd (createSSTFile now fs mem)) (sstFileName now) = Some writtenA"
    by (simp add: createSSTFile_eval assms writtenA_def)
  then show ?thesis
    by (simp add: createSSTFile_def Let_def assms)
qed

lemma createSSTFile_writtenB:
  assumes "data mem = [\<lparr>Key = bytes_of ''k2'', Value = bytes_of ''v3'', Operation = 0\<rparr>,
                       \<lparr>Key = bytes_of ''k3'', Value = bytes_of ''v4'', Operation = 0\<rparr>]"
  shows "createSSTFile now fs mem = (None, fs(sstFileName now \<mapsto> writtenB), mem\<lparr>data := []\<rparr>)"
proof -
  have "fst (snd (createSSTFile now fs mem)) (sstFileName now) = Some writtenB"
    by (simp add: createSSTFile_eval assms writtenB_def)
  then show ?thesis
    by (simp add: createSSTFile_def Let_def assms)
qed

lemma scan_writtenA: "scanLines [] writtenA = ([writtenA], False)"
  by (simp add: writtenA_def maxScanTokenSize_def dropCR_def)

lemma unmarshal_writtenA: "exampleUnmarshal writtenA = None"
  by (simp add: writtenA_def merge_eval)

text \<open>
  Claim C4 (merging segments keeps, for every key, the entry of the most recently created
  segment, drops the key when that entry is a Delete, and writes the rest sorted by key:
  \<open>{k1:v1, k2:v2}\<close> merged with the newer \<open>{k2:v3, k3:v4}\<close> gives \<open>{k1:v1, k2:v3, k3:v4}\<close>). The
  code does otherwise on the specification's own example. The two stores are filled by
  \<^verbatim>\<open>Set\<close> and written by \<^verbatim>\<open>createSSTFile\<close> at seconds 1 and 2; the directory then holds the two
  binary segments. \<^verbatim>\<open>mergeSSTFiles\<close> reads its inputs as lines of JSON: the first line of the
  first segment is no JSON, the merge returns the decoding error, the new file is left
  empty and no entry is merged; the same through \<^verbatim>\<open>compactSSTFiles\<close> with a ceiling of one
  file. This holds whatever the order of Go's map iteration.
\<close>

theorem merge_of_written_segments_fails:
  "case createSSTFile 1 Map.empty
          (setAll [(bytes_of ''k1'', bytes_of ''v1''), (bytes_of ''k2'', bytes_of ''v2'')]
             (NewMemDB (NewWriteAheadLog 100))) of
     (e1, fs1, m1) \<Rightarrow>
       (case createSSTFile 2 fs1
               (setAll [(bytes_of ''k2'', bytes_of ''v3''), (bytes_of ''k3'', bytes_of ''v4'')] m1) of
          (e2, fs2, m2) \<Rightarrow>
            e1 = None \<and> e2 = None
            \<and> fs2 = [''file_1.sst'' \<mapsto> writtenA, ''file_2.sst'' \<mapsto> writtenB]
            \<and> mergeSSTFiles exampleUnmarshal order [''file_1.sst'', ''file_2.sst''] ''merged_sst_file_3.sst'' fs2
                = (Some UnmarshalError, fs2(''merged_sst_file_3.sst'' \<mapsto> []))
            \<and> compactSSTFiles exampleUnmarshal order 3 1 (Some [''file_2.sst'', ''file_1.sst'']) fs2
                = (Some UnmarshalError, fs2(''merged_sst_file_3.sst'' \<mapsto> [])))"
proof -
  let ?m0 = "setAll [(bytes_of ''k1'', bytes_of ''v1''), (bytes_of ''k2'', bytes_of ''v2'')]
             (NewMemDB (NewWriteAheadLog 100))"
  let ?m1 = "?m0\<lparr>data := []\<rparr>"
  let ?m2 = "setAll [(bytes_of ''k2'', bytes_of ''v3''), (bytes_of ''k3'', bytes_of ''v4'')] ?m1"
  let ?fs2 = "[''file_1.sst'' \<mapsto> writtenA, ''file_2.sst'' \<mapsto> writtenB]"
  have n: "sstFileName 1 = ''file_1.sst''" "sstFileName 2 = ''file_2.sst''"
    by (simp_all add: eval_defs)
  have d0: "data ?m0 = [\<lparr>Key = bytes_of ''k1'', Value = bytes_of ''v1'', Operation = 0\<rparr>,
                        \<lparr>Key = bytes_of ''k2'', Value = bytes_of ''v2'', Operation = 0\<rparr>]"
    unfolding data_setAll by (simp add: NewMemDB_def)
  have d2: "data ?m2 = [\<lparr>Key = bytes_of ''k2'', Value = bytes_of ''v3'', Operation = 0\<rparr>,
                        \<lparr>Key = bytes_of ''k3'', Value = bytes_of ''v4'', Operation = 0\<rparr>]"
    unfolding data_setAll by simp
  have c1: "createSSTFile 1 Map.empty ?m0 = (None, [''file_1.sst'' \<mapsto> writtenA], ?m1)"
    unfolding createSSTFile_writtenA [OF d0] n ..
  have c2: "createSSTFile 2 [''file_1.sst'' \<mapsto> writtenA] ?m2 = (None, ?fs2, ?m2\<lparr>data := []\<rparr>)"
    unfolding createSSTFile_writtenB [OF d2] n ..
  have names: "sort [''file_2.sst'', ''file_1.sst''] = [''file_1.sst'', ''file_2.sst'']"
    by simp
  have r: "readSegments exampleUnmarshal [''file_1.sst'', ''file_2.sst''] Map.empty
             (?fs2(''merged_sst_file_3.sst'' \<mapsto> []))
           = (Some UnmarshalError, Map.empty, ?fs2(''merged_sst_file_3.sst'' \<mapsto> []))"
    by (simp add: scan_writtenA unmarshal_writtenA)
  have m: "mergeSSTFiles exampleUnmarshal order [''file_1.sst'', ''file_2.sst''] ''merged_sst_file_3.sst'' ?fs2
             = (Some UnmarshalError, ?fs2(''merged_sst_file_3.sst'' \<mapsto> []))"
    unfolding mergeSSTFiles_def r by simp
  have k: "compactSSTFiles exampleUnmarshal order 3 1 (Some [''file_2.sst'', ''file_1.sst'']) ?fs2
             = (Some UnmarshalError, ?fs2(''merged_sst_file_3.sst'' \<mapsto> []))"
    by (simp add: compactSSTFiles_def getSSTFileNames_def HasSuffix_def names Sprintf_d_def decimal.simps m)
  show ?thesis
    unfolding c1 prod.case c2 m k by simp
qed

text \<open>
  The same for every segment \<^verbatim>\<open>createSSTFile\<close> writes: its first byte is \<open>0x78\<close>, the low byte of
  the magic number, where a line of JSON that decodes to a \<^verbatim>\<open>KeyValue\<close> begins with a brace.
  With any decoder that rejects the lines beginning with \<open>0x78\<close>, a merge whose first input
  is a written segment fails on it: with the decoding error, or with the scanner's error
  when the segment's first line does not fit the scanner's buffer.
\<close>

lemma dropCR_first: "cur \<noteq> [] \<Longrightarrow> hd cur \<noteq> 13 \<Longrightarrow> dropCR cur \<noteq> [] \<and> hd (dropCR cur) = hd cur"
  by (cases cur rule: rev_cases) (auto simp: dropCR_def hd_append)

lemma scanLines_first:
  "cur \<noteq> [] \<Longrightarrow> hd cur \<noteq> 13 \<Longrightarrow> scanLines cur bs = (ls, tooLong)
   \<Longrightarrow> ls = [] \<and> tooLong \<or> ls \<noteq> [] \<and> hd ls \<noteq> [] \<and> hd (hd ls) = hd cur"
proof (induction bs arbitrary: cur ls tooLong)
  case Nil
  then show ?case
    using dropCR_first [of cur] by (auto split: if_splits)
next
  case (Cons b bs)
  show ?case
  proof (cases "b = 10")
    case True
    with Cons.prems show ?thesis
      using dropCR_first [of cur] by (auto split: if_splits prod.splits)
  next
    case False
    with Cons.prems have "scanLines (cur @ [b]) bs = (ls, tooLong)" by simp
    from Cons.IH [OF _ _ this] Cons.prems(1,2) show ?thesis
      by (simp add: hd_append)
  qed
qed

lemma merge_rejects_written_segment:
  assumes "data mem \<noteq> []"
    and "\<And>line. line \<noteq> [] \<Longrightarrow> hd line = 120 \<Longrightarrow> unmarshal line = None"
    and "newFileName \<noteq> sstFileName now"
  shows "fst (mergeSSTFiles unmarshal order (sstFileName now # rest) newFileName
                (fst (snd (createSSTFile now fs mem))))
           \<in> {Some UnmarshalError, Some ScannerError}"
proof -
  let ?fs = "fst (snd (createSSTFile now fs mem))"
  from createSSTFile_magic(3) [OF assms(1), of now fs] obtain content where
    c: "?fs (sstFileName now) = Some content" and t: "take 4 content = le32 magicNumber"
      and l: "30 \<le> length content"
    by blast
  from l obtain c' where c': "content = hd content # c'"
    by (cases content) auto
  from t l have h: "hd content = 120"
    by (cases content) (auto simp: le32_def magicNumber_def)
  obtain ls tooLong where s: "scanLines [] content = (ls, tooLong)"
    by (cases "scanLines [] content") auto
  have "scanLines [] content = scanLines [hd content] c'"
    by (subst c') (simp add: h)
  with s have "scanLines [hd content] c' = (ls, tooLong)" by simp
  from scanLines_first [OF _ _ this] h
  have f: "ls = [] \<and> tooLong \<or> ls \<noteq> [] \<and> hd ls \<noteq> [] \<and> hd (hd ls) = 120"
    by simp
  have "fst (readSegments unmarshal (sstFileName now # rest) Map.empty (?fs(newFileName \<mapsto> [])))
          \<in> {Some UnmarshalError, Some ScannerError}"
  proof (cases ls)
    case Nil
    with f s c assms(3) show ?thesis by simp
  next
    case (Cons line ls')
    with f have "unmarshal line = None" by (simp add: assms(2))
    with Cons s c assms(3) show ?thesis by simp
  qed
  then obtain err md fs1 where
    "readSegments unmarshal (sstFileName now # rest) Map.empty (?fs(newFileName \<mapsto> [])) = (Some err, md, fs1)"
    and "err = UnmarshalError \<or> err = ScannerError"
    by (cases "readSegments unmarshal (sstFileName now # rest) Map.empty (?fs(newFileName \<mapsto> []))") auto
  then show ?thesis
    unfolding mergeSSTFiles_def by auto
qed

text \<open>
  On input files that do hold lines of JSON, which no function of the program writes, a
  merge that succeeds leaves in the new file one record for every key that occurs in an
  input and no other record; the record of a key carries the value of the key's last
  entry in the last file, in list order, that has the key, whatever that entry's
  operation; the records stand in the order in which Go's map iteration visits the keys.
  Every input file existed and is removed; no other file changes.
\<close>

lemma merge_keeps_newest_value:
  assumes "mergeSSTFiles um order names new fs = (None, fs')" and "new \<notin> set names"
    and "rangeOrder (newestValue (concat (map (segmentEntries um fs) names))) order"
  shows "fs' new = Some (writeMerged (newestValue (concat (map (segmentEntries um fs) names))) order)
         \<and> distinct order
         \<and> set order = Key ` set (concat (map (segmentEntries um fs) names))
         \<and> (\<forall>n \<in> set names. fs n \<noteq> None \<and> fs' n = None)
         \<and> (\<forall>n. n \<notin> set names \<and> n \<noteq> new \<longrightarrow> fs' n = fs n)"
proof -
  from assms(1) obtain md fs1 where
    r: "readSegments um names Map.empty (fs(new \<mapsto> [])) = (None, md, fs1)"
    by (auto simp: mergeSSTFiles_def split: prod.splits option.splits)
  have same: "map (segmentEntries um (fs(new \<mapsto> []))) names = map (segmentEntries um fs) names"
    using assms(2) by (intro map_cong refl segmentEntries_removed) auto
  from readSegments_foldl [OF r] have
    md: "md = newestValue (concat (map (segmentEntries um fs) names))"
    and fs1: "fs1 = (\<lambda>n. if n \<in> set names then None else (fs(new \<mapsto> [])) n)"
    by (simp_all add: same foldl_empty_newestValue)
  from fs1 assms(2) have new: "fs1 new = Some []" by simp
  with assms(1) r have fs': "fs' = fs1(new \<mapsto> writeMerged md order)"
    by (simp add: mergeSSTFiles_def)
  have present: "fs n \<noteq> None" if "n \<in> set names" for n
  proof -
    from that assms(2) have "n \<noteq> new" by auto
    with readSegments_present [OF r that] show ?thesis by simp
  qed
  from assms(3) have "distinct order" "set order = Key ` set (concat (map (segmentEntries um fs) names))"
    by (simp_all add: rangeOrder_def dom_newestValue)
  with fs' fs1 md present assms(2) show ?thesis
    by auto
qed

text \<open>
  The specification's example as two files of JSON lines: \<open>{k1:v1, k2:v2}\<close> merged with
  \<open>{k2:v3, k3:v4}\<close>, the keys visited in ascending order, gives \<open>k1:v1, k2:v3, k3:v4\<close>.
\<close>

lemma merge_example_json_lines:
  "fst (mergeSSTFiles exampleUnmarshal [bytes_of ''k1'', bytes_of ''k2'', bytes_of ''k3'']
          [''file_1.sst'', ''file_2.sst''] ''merged_sst_file_3.sst''
          [''file_1.sst'' \<mapsto> segmentA, ''file_2.sst'' \<mapsto> segmentB]) = None
   \<and> ''merged_sst_file_3.sst'' \<notin> set [''file_1.sst'', ''file_2.sst'']
   \<and> rangeOrder
        (newestValue (concat (map (segmentEntries exampleUnmarshal
             [''file_1.sst'' \<mapsto> segmentA, ''file_2.sst'' \<mapsto> segmentB]) [''file_1.sst'', ''file_2.sst''])))
        [bytes_of ''k1'', bytes_of ''k2'', bytes_of ''k3'']
   \<and> snd (mergeSSTFiles exampleUnmarshal [bytes_of ''k1'', bytes_of ''k2'', bytes_of ''k3'']
          [''file_1.sst'', ''file_2.sst''] ''merged_sst_file_3.sst''
          [''file_1.sst'' \<mapsto> segmentA, ''file_2.sst'' \<mapsto> segmentB]) ''merged_sst_file_3.sst''
       = Some (encodeEntry (bytes_of ''k1'') (bytes_of ''v1'') @ encodeEntry (bytes_of ''k2'') (bytes_of ''v3'')
                 @ encodeEntry (bytes_of ''k3'') (bytes_of ''v4''))"
proof -
  let ?fs = "[''file_1.sst'' \<mapsto> segmentA, ''file_2.sst'' \<mapsto> segmentB]"
  let ?order = "[bytes_of ''k1'', bytes_of ''k2'', bytes_of ''k3'']"
  have h1: "fst (mergeSSTFiles exampleUnmarshal ?order [''file_1.sst'', ''file_2.sst''] ''merged_sst_file_3.sst'' ?fs) = None"
    by (simp add: mergeSSTFiles_def scanA scanB) (simp add: merge_eval)
  then have h1': "mergeSSTFiles exampleUnmarshal ?order [''file_1.sst'', ''file_2.sst''] ''merged_sst_file_3.sst'' ?fs
      = (None, snd (mergeSSTFiles exampleUnmarshal ?order [''file_1.sst'', ''file_2.sst''] ''merged_sst_file_3.sst'' ?fs))"
    by (simp add: prod_eq_iff)
  have h2: "''merged_sst_file_3.sst'' \<notin> set [''file_1.sst'', ''file_2.sst'']"
    by simp
  have e: "concat (map (segmentEntries exampleUnmarshal ?fs) [''file_1.sst'', ''file_2.sst''])
     = [\<lparr>Key = bytes_of ''k1'', Value = bytes_of ''v1'', Operation = 0\<rparr>,
        \<lparr>Key = bytes_of ''k2'', Value = bytes_of ''v2'', Operation = 0\<rparr>,
        \<lparr>Key = bytes_of ''k2'', Value = bytes_of ''v3'', Operation = 0\<rparr>,
        \<lparr>Key = bytes_of ''k3'', Value = bytes_of ''v4'', Operation = 0\<rparr>]"
    by (simp add: segmentEntries_def scanA scanB) (simp add: merge_eval)
  have h3: "rangeOrder (newestValue (concat (map (segmentEntries exampleUnmarshal ?fs) [''file_1.sst'', ''file_2.sst'']))) ?order"
    unfolding e by (simp add: rangeOrder_def dom_newestValue bytes_of_def) 
  have w: "writeMerged (newestValue (concat (map (segmentEntries exampleUnmarshal ?fs) [''file_1.sst'', ''file_2.sst'']))) ?order
      = encodeEntry (bytes_of ''k1'') (bytes_of ''v1'') @ encodeEntry (bytes_of ''k2'') (bytes_of ''v3'')
                 @ encodeEntry (bytes_of ''k3'') (bytes_of ''v4'')"
    unfolding e by (simp add: writeMerged_def newestValue_def bytes_of_def)
  from merge_keeps_newest_value [OF h1' h2 h3] h1 h2 h3 w show ?thesis
    by simp
qed

text \<open>
  On such files a key whose newest entry has operation Delete stays in the output, with
  that entry's value. And the output is in map iteration order: for the example the order
  \<open>k3, k1, k2\<close> is one Go may choose, and the records are then written in that order, which
  is not ascending.
\<close>

lemma merge_keeps_delete_entries_in_map_order:
  "fst (mergeSSTFiles exampleUnmarshal [bytes_of ''k1'']
          [''file_1.sst'', ''file_2.sst''] ''merged_sst_file_3.sst''
          [''file_1.sst'' \<mapsto> jsonLine ''azE='' ''djE='' 0 @ [10],
           ''file_2.sst'' \<mapsto> jsonLine ''azE='' ''djE='' 1 @ [10]]) = None
   \<and> segmentEntries exampleUnmarshal
          [''file_1.sst'' \<mapsto> jsonLine ''azE='' ''djE='' 0 @ [10],
           ''file_2.sst'' \<mapsto> jsonLine ''azE='' ''djE='' 1 @ [10]] ''file_2.sst''
       = [\<lparr>Key = bytes_of ''k1'', Value = bytes_of ''v1'', Operation = Delete_op\<rparr>]
   \<and> snd (mergeSSTFiles exampleUnmarshal [bytes_of ''k1'']
          [''file_1.sst'', ''file_2.sst''] ''merged_sst_file_3.sst''
          [''file_1.sst'' \<mapsto> jsonLine ''azE='' ''djE='' 0 @ [10],
           ''file_2.sst'' \<mapsto> jsonLine ''azE='' ''djE='' 1 @ [10]]) ''merged_sst_file_3.sst''
       = Some (encodeEntry (bytes_of ''k1'') (bytes_of ''v1''))
   \<and> rangeOrder
        (newestValue (concat (map (segmentEntries exampleUnmarshal
             [''file_1.sst'' \<mapsto> segmentA, ''file_2.sst'' \<mapsto> segmentB]) [''file_1.sst'', ''file_2.sst''])))
        [bytes_of ''k3'', bytes_of ''k1'', bytes_of ''k2'']
   \<and> snd (mergeSSTFiles exampleUnmarshal [bytes_of ''k3'', bytes_of ''k1'', bytes_of ''k2'']
          [''file_1.sst'', ''file_2.sst''] ''merged_sst_file_3.sst''
          [''file_1.sst'' \<mapsto> segmentA, ''file_2.sst'' \<mapsto> segmentB]) ''merged_sst_file_3.sst''
       = Some (encodeEntry (bytes_of ''k3'') (bytes_of ''v4'') @ encodeEntry (bytes_of ''k1'') (bytes_of ''v1'')
                 @ encodeEntry (bytes_of ''k2'') (bytes_of ''v3''))
   \<and> \<not> sorted [bytes_of ''k3'', bytes_of ''k1'', bytes_of ''k2'']"
proof -
  have s1: "scanLines [] (jsonLine ''azE='' ''djE='' 0 @ [10]) = ([jsonLine ''azE='' ''djE='' 0], False)"
    by (simp add: merge_eval)
  have s2: "scanLines [] (jsonLine ''azE='' ''djE='' 1 @ [10]) = ([jsonLine ''azE='' ''djE='' 1], False)"
    by (simp add: merge_eval)
  have t: "fst (mergeSSTFiles exampleUnmarshal [bytes_of ''k1'']
          [''file_1.sst'', ''file_2.sst''] ''merged_sst_file_3.sst''
          [''file_1.sst'' \<mapsto> jsonLine ''azE='' ''djE='' 0 @ [10],
           ''file_2.sst'' \<mapsto> jsonLine ''azE='' ''djE='' 1 @ [10]]) = None
     \<and> snd (mergeSSTFiles exampleUnmarshal [bytes_of ''k1'']
          [''file_1.sst'', ''file_2.sst''] ''merged_sst_file_3.sst''
          [''file_1.sst'' \<mapsto> jsonLine ''azE='' ''djE='' 0 @ [10],
           ''file_2.sst'' \<mapsto> jsonLine ''azE='' ''djE='' 1 @ [10]]) ''merged_sst_file_3.sst''
       = Some (encodeEntry (bytes_of ''k1'') (bytes_of ''v1''))"
    by (simp add: mergeSSTFiles_def s1 s2) (simp add: merge_eval)
  have d: "segmentEntries exampleUnmarshal
          [''file_1.sst'' \<mapsto> jsonLine ''azE='' ''djE='' 0 @ [10],
           ''file_2.sst'' \<mapsto> jsonLine ''azE='' ''djE='' 1 @ [10]] ''file_2.sst''
       = [\<lparr>Key = bytes_of ''k1'', Value = bytes_of ''v1'', Operation = Delete_op\<rparr>]"
    by (simp add: segmentEntries_def s2 Delete_op_def) (simp add: merge_eval)
  have e: "concat (map (segmentEntries exampleUnmarshal [''file_1.sst'' \<mapsto> segmentA, ''file_2.sst'' \<mapsto> segmentB])
              [''file_1.sst'', ''file_2.sst''])
     = [\<lparr>Key = bytes_of ''k1'', Value = bytes_of ''v1'', Operation = 0\<rparr>,
        \<lparr>Key = bytes_of ''k2'', Value = bytes_of ''v2'', Operation = 0\<rparr>,
        \<lparr>Key = bytes_of ''k2'', Value = bytes_of ''v3'', Operation = 0\<rparr>,
        \<lparr>Key = bytes_of ''k3'', Value = bytes_of ''v4'', Operation = 0\<rparr>]"
    by (simp add: segmentEntries_def scanA scanB) (simp add: merge_eval)
  have r: "rangeOrder
        (newestValue (concat (map (segmentEntries exampleUnmarshal
             [''file_1.sst'' \<mapsto> segmentA, ''file_2.sst'' \<mapsto> segmentB]) [''file_1.sst'', ''file_2.sst''])))
        [bytes_of ''k3'', bytes_of ''k1'', bytes_of ''k2'']"
    unfolding e by (simp add: rangeOrder_def dom_newestValue bytes_of_def) auto
  have o: "snd (mergeSSTFiles exampleUnmarshal [bytes_of ''k3'', bytes_of ''k1'', bytes_of ''k2'']
          [''file_1.sst'', ''file_2.sst''] ''merged_sst_file_3.sst''
          [''file_1.sst'' \<mapsto> segmentA, ''file_2.sst'' \<mapsto> segmentB]) ''merged_sst_file_3.sst''
       = Some (encodeEntry (bytes_of ''k3'') (bytes_of ''v4'') @ encodeEntry (bytes_of ''k1'') (bytes_of ''v1'')
                 @ encodeEntry (bytes_of ''k2'') (bytes_of ''v3''))"
    by (simp add: mergeSSTFiles_def scanA scanB) (simp add: merge_eval)
  have n: "\<not> sorted [bytes_of ''k3'', bytes_of ''k1'', bytes_of ''k2'']"
    by (simp add: bytes_of_def)
  from t d r o n show ?thesis by blast
qed

text \<open>
  \<^verbatim>\<open>compactSSTFiles\<close> hands the names to the merge sorted as strings, so the file read last,
  whose values win, is the one whose name sorts last, not the one created last: a file
  \<^verbatim>\<open>merged_sst_file_1.sst\<close> is read after \<^verbatim>\<open>file_2.sst\<close>, and its value \<open>v2\<close> for \<open>k2\<close> replaces \<open>v3\<close>.
\<close>

lemma compaction_reads_names_in_string_order:
  "sort [''merged_sst_file_1.sst'', ''file_2.sst''] = [''file_2.sst'', ''merged_sst_file_1.sst'']
   \<and> snd (compactSSTFiles exampleUnmarshal [bytes_of ''k1'', bytes_of ''k2'', bytes_of ''k3''] 3 1
            (Some [''merged_sst_file_1.sst'', ''file_2.sst''])
            [''merged_sst_file_1.sst'' \<mapsto> segmentA, ''file_2.sst'' \<mapsto> segmentB]) ''merged_sst_file_3.sst''
       = Some (encodeEntry (bytes_of ''k1'') (bytes_of ''v1'') @ encodeEntry (bytes_of ''k2'') (bytes_of ''v2'')
                 @ encodeEntry (bytes_of ''k3'') (bytes_of ''v4''))"
proof -
  let ?fs = "[''merged_sst_file_1.sst'' \<mapsto> segmentA, ''file_2.sst'' \<mapsto> segmentB]"
  let ?order = "[bytes_of ''k1'', bytes_of ''k2'', bytes_of ''k3'']"
  have names: "sort [''merged_sst_file_1.sst'', ''file_2.sst''] = [''file_2.sst'', ''merged_sst_file_1.sst'']"
    by simp
  have m: "\<exists>fs1. mergeSSTFiles exampleUnmarshal ?order [''file_2.sst'', ''merged_sst_file_1.sst'']
             ''merged_sst_file_3.sst'' ?fs = (None, fs1)
           \<and> fs1 ''file_2.sst'' = None
           \<and> fs1 ''merged_sst_file_3.sst''
               = Some (encodeEntry (bytes_of ''k1'') (bytes_of ''v1'') @ encodeEntry (bytes_of ''k2'') (bytes_of ''v2'')
                 @ encodeEntry (bytes_of ''k3'') (bytes_of ''v4''))"
    by (simp add: mergeSSTFiles_def scanA scanB) (simp add: merge_eval)
  then obtain fs1 where
    r: "mergeSSTFiles exampleUnmarshal ?order [''file_2.sst'', ''merged_sst_file_1.sst'']
             ''merged_sst_file_3.sst'' ?fs = (None, fs1)"
    and f: "fs1 ''file_2.sst'' = None"
      "fs1 ''merged_sst_file_3.sst''
               = Some (encodeEntry (bytes_of ''k1'') (bytes_of ''v1'') @ encodeEntry (bytes_of ''k2'') (bytes_of ''v2'')
                 @ encodeEntry (bytes_of ''k3'') (bytes_of ''v4''))"
    by blast
  have "compactSSTFiles exampleUnmarshal ?order 3 1 (Some [''merged_sst_file_1.sst'', ''file_2.sst'']) ?fs
          = (Some RemoveError, fs1)"
    by (simp add: compactSSTFiles_def getSSTFileNames_def HasSuffix_def names Sprintf_d_def decimal.simps r f)
  with names f show ?thesis
    by simp
qed

text \<open>
  A successful merge has removed every input file, so the loop of \<^verbatim>\<open>compactSSTFiles\<close> that
  removes them again fails on the first name: a compaction that merges returns an error
  even when the merge went well.
\<close>

lemma mergeSSTFiles_removes_inputs:
  assumes "mergeSSTFiles um order names new fs = (None, fs')" and "n \<in> set names"
  shows "fs' n = None"
proof -
  from assms(1) obtain md fs1 where
    r: "readSegments um names Map.empty (fs(new \<mapsto> [])) = (None, md, fs1)"
    by (auto simp: mergeSSTFiles_def split: prod.splits option.splits)
  from readSegments_foldl [OF r] have
    fs1: "fs1 = (\<lambda>n. if n \<in> set names then None else (fs(new \<mapsto> [])) n)"
    by simp
  show ?thesis
  proof (cases "new \<in> set names")
    case True
    with fs1 have "fs1 new = None" by simp
    with assms(1) r have "fs' = fs1" by (simp add: mergeSSTFiles_def)
    with fs1 assms(2) show ?thesis by simp
  next
    case False
    with assms(2) have "n \<noteq> new" by auto
    from assms(1) r have "fs' = fs1 \<or> (\<exists>x. fs' = fs1(new \<mapsto> x))"
      by (auto simp: mergeSSTFiles_def split: option.splits)
    with \<open>n \<noteq> new\<close> fs1 assms(2) show ?thesis by auto
  qed
qed

lemma compactSSTFiles_fails_after_successful_merge:
  assumes "getSSTFileNames dir = Inr sstFiles" and "maxSSTFiles < int (length sstFiles)"
    and "mergeSSTFiles um order (sort sstFiles) (''merged_sst_file_'' @ Sprintf_d now @ ''.sst'') fs = (None, fs1)"
    and "sstFiles \<noteq> []"
  shows "compactSSTFiles um order now maxSSTFiles dir fs = (Some RemoveError, fs1)"
proof -
  from assms(4) have "sort sstFiles \<noteq> []"
    by (metis length_sort length_0_conv)
  then obtain a rest where s: "sort sstFiles = a # rest"
    by (cases "sort sstFiles") auto
  have "fs1 a = None"
    using mergeSSTFiles_removes_inputs [OF assms(3), of a] s by simp
  then have "removeFiles (sort sstFiles) fs1 = (Some RemoveError, fs1)"
    by (simp add: s)
  with assms(1,2,3) show ?thesis
    by (simp add: compactSSTFiles_def)
qed

end
